theory Spec2Isabelle
  imports Complex_Main "HOL-Library.Word" "HOL-Library.Sublist"
begin

section \<open>JavaScript strings and buffers\<close>

text \<open>
  A JavaScript string is a sequence of code units; \<open>length\<close>, \<open>slice\<close>, \<open>endsWith\<close>
  and \<open>includes\<close> only count and compare code units, so a string is modelled as a
  list of characters. A Node \<open>Buffer\<close> is a list of bytes.
\<close>

type_synonym jsstring = string
type_synonym byte = "8 word"
type_synonym buffer = "byte list"

text \<open>\<open>s.endsWith(t)\<close>: the last \<open>t.length\<close> code units of \<open>s\<close> are \<open>t\<close>.\<close>

definition endsWith :: "jsstring \<Rightarrow> jsstring \<Rightarrow> bool" where
  "endsWith s t = (length t \<le> length s \<and> drop (length s - length t) s = t)"

text \<open>
  \<open>s.slice(-n)\<close> for a count \<open>n \<ge> 0\<close>: the last \<open>n\<close> code units, and the whole
  string when \<open>n = 0\<close> (\<open>-0\<close> is the start index 0) or \<open>n\<close> exceeds the length.
\<close>

definition sliceLast :: "jsstring \<Rightarrow> nat \<Rightarrow> jsstring" where
  "sliceLast s n = (if n = 0 then s else drop (length s - n) s)"

text \<open>
  White space as \<open>trim\<close> and the regular expression \<open>\s\<close> see it, within the
  characters a \<open>char\<close> can hold: tab, line feed, vertical tab, form feed, carriage
  return, space and no-break space.
\<close>

definition isSpace :: "char \<Rightarrow> bool" where
  "isSpace c = (c \<in> set [CHR 0x09, CHR 0x0A, CHR 0x0B, CHR 0x0C, CHR 0x0D, CHR 0x20, CHR 0xA0])"

definition trim :: "jsstring \<Rightarrow> jsstring" where
  "trim s = rev (dropWhile isSpace (rev (dropWhile isSpace s)))"

text \<open>
  \<open>s.split(/\s+/)\<close>: the pieces between maximal runs of white space; the empty
  string splits into one empty piece. \<open>cur\<close> is the piece being read, reversed.
\<close>

function splitAcc :: "jsstring \<Rightarrow> jsstring \<Rightarrow> jsstring list" where
  "splitAcc cur [] = [rev cur]"
| "splitAcc cur (c # cs) =
     (if isSpace c then rev cur # splitAcc [] (dropWhile isSpace cs)
      else splitAcc (c # cur) cs)"
  by pat_completeness auto
termination
  by (relation "measure (\<lambda>(cur, s). length s)")
     (auto simp: length_dropWhile_le less_Suc_eq_le)

text \<open>\<open>s.trim().split(/\s+/).length\<close>, the word count both handlers compute.\<close>

definition wordCount :: "jsstring \<Rightarrow> nat" where
  "wordCount s = length (splitAcc [] (trim s))"

text \<open>\<open>s.includes(t)\<close>: \<open>t\<close> occurs in \<open>s\<close> as a contiguous substring.\<close>

fun includesStr :: "jsstring \<Rightarrow> jsstring \<Rightarrow> bool" where
  "includesStr [] t = (t = [])"
| "includesStr (c # cs) t = (prefix t (c # cs) \<or> includesStr cs t)"

text \<open>The decimal digits of a number, as a template literal prints \<open>res.status\<close>.\<close>

function showNat :: "nat \<Rightarrow> jsstring" where
  "showNat n =
     (if n < 10 then [''0123456789'' ! n]
      else showNat (n div 10) @ [''0123456789'' ! (n mod 10)])"
  by pat_completeness auto
termination
  by (relation "measure id") auto

text \<open>\<open>data.readUInt32BE(off)\<close>, for an offset with four bytes after it.\<close>

definition readUInt32BE :: "buffer \<Rightarrow> nat \<Rightarrow> nat" where
  "readUInt32BE data off =
     unat (data ! off) * 2 ^ 24 + unat (data ! (off + 1)) * 2 ^ 16
       + unat (data ! (off + 2)) * 2 ^ 8 + unat (data ! (off + 3))"

section \<open>transcription.ts\<close>

text \<open>
  The functions of \<open>src/transcription.ts\<close>: the stitcher, the check of the
  container header, the voice gate and the transcription client with its retries.
\<close>

subsection \<open>appendWithOverlap\<close>

text \<open>
  The loop \<open>for (let i = max; i > 0; i--)\<close> of \<open>appendWithOverlap\<close>, by recursion on
  the counter: the first \<open>i\<close> whose prefix \<open>addition.slice(0, i)\<close> ends \<open>base\<close>
  returns; when the counter reaches 0 the whole addition is appended.
\<close>

fun overlapLoop :: "jsstring \<Rightarrow> jsstring \<Rightarrow> nat \<Rightarrow> jsstring \<times> nat" where
  "overlapLoop base addition 0 = (base @ addition, length addition)"
| "overlapLoop base addition (Suc n) =
     (if endsWith base (take (Suc n) addition)
      then (base @ drop (Suc n) addition, length addition - Suc n)
      else overlapLoop base addition n)"

definition appendWithOverlap :: "jsstring \<Rightarrow> jsstring \<Rightarrow> jsstring \<times> nat" where
  "appendWithOverlap base addition =
     overlapLoop base addition (min (length base) (length addition))"

subsection \<open>checkWebMIntegrity and hasVoiceActivity\<close>

definition checkWebMIntegrity :: "buffer \<Rightarrow> bool" where
  "checkWebMIntegrity data = (length data \<ge> 4 \<and> readUInt32BE data 0 = 0x1a45dfa3)"

definition MIN_AUDIO_SIZE_BYTES :: nat where
  "MIN_AUDIO_SIZE_BYTES = 1000"

definition MAX_RETRIES :: nat where
  "MAX_RETRIES = 2"

text \<open>
  The energy check of \<open>hasVoiceActivity\<close>: the variance of the first
  \<open>min(1000, length)\<close> bytes must exceed 100. The source computes it in double
  precision; here it is computed exactly, over the reals. The sample always has 1000
  bytes, so the exact variance is a whole number of millionths and the rounded one
  can fall on the other side of 100 only when the exact one is 100.
\<close>

definition hasVoiceActivity :: "buffer \<Rightarrow> bool" where
  "hasVoiceActivity buffer =
     (if length buffer < MIN_AUDIO_SIZE_BYTES then False
      else let sampleSize = min 1000 (length buffer);
               sample = map (\<lambda>b. real (unat b)) (take sampleSize buffer);
               mean = sum_list sample / real sampleSize;
               variance = sum_list (map (\<lambda>x. (x - mean)\<^sup>2) sample) / real sampleSize
           in variance > 100)"

subsection \<open>Responses and events\<close>

text \<open>
  \<open>Record<string, string>\<close> is a map from field names to values. \<open>FieldDef\<close> is
  the interface of \<open>util.ts\<close>.
\<close>

type_synonym attrs = "jsstring \<rightharpoonup> jsstring"

text \<open>
  The assignment \<open>obj[name] = v\<close> of a string to a plain object: it stores an own
  property, except under the name \<open>__proto__\<close> when the object has no own property
  of that name. There the assignment reaches the setter of \<open>Object.prototype\<close>, which
  ignores a string, and nothing is stored.
\<close>

definition setAttribute :: "attrs \<Rightarrow> jsstring \<Rightarrow> jsstring \<Rightarrow> attrs" where
  "setAttribute obj name v =
     (if name = ''__proto__'' \<and> obj name = None then obj else obj(name \<mapsto> v))"

record FieldDef =
  block_name :: jsstring
  field_name :: jsstring

text \<open>
  The JSON messages the server sends: \<open>{action: "started", template_size}\<close>,
  \<open>{corrected_audio, attributes}\<close>, the same with an \<open>error\<close> key, and \<open>{error}\<close>.
\<close>

datatype response =
    Started nat
  | Update jsstring attrs
  | UpdateWithError jsstring attrs jsstring
  | ErrorOnly jsstring

text \<open>
  Effects are recorded as a list of events, in the order the code performs them:
  \<open>socket.send\<close>, \<open>queue.add\<close> with the snapshot the job closes over,
  \<open>await queue.onIdle()\<close>, a POST to the transcription service, a \<open>setTimeout\<close>
  of so many milliseconds, the three chat-completion requests with the text they carry,
  and a call of \<open>parseFinalAttributes\<close> with the transcript it is given.
\<close>

datatype event =
    Sent response
  | Queued buffer
  | QueueIdle
  | WhisperRequest buffer
  | Backoff nat
  | CorrectionRequest jsstring
  | ExtractionRequest jsstring
  | FinalSweep jsstring
  | FinalRequest jsstring

subsection \<open>runWhisperOnBuffer\<close>

text \<open>
  What one \<open>fetch\<close> of the transcription service comes to: the promise rejects with
  an \<open>Error\<close> of some message, or it resolves to a response with a status, the body
  \<open>res.text()\<close> reads, and what \<open>res.json()\<close> gives (it throws, or it is an object
  whose \<open>text\<close> is a string or is missing). \<open>res.ok\<close> is a status from 200 to 299.
\<close>

datatype whisper_json = JsonThrows jsstring | JsonText "jsstring option"

datatype fetch_outcome = Rejects jsstring | Resolves nat jsstring whisper_json

text \<open>
  The body of the \<open>try\<close>: the transcription (\<open>Inr\<close>), or the message of the
  \<open>Error\<close> thrown (\<open>Inl\<close>).
\<close>

definition attemptFetch :: "fetch_outcome \<Rightarrow> jsstring + jsstring" where
  "attemptFetch out =
     (case out of
        Rejects msg \<Rightarrow> Inl msg
      | Resolves status body json \<Rightarrow>
          if \<not> (200 \<le> status \<and> status \<le> 299)
          then Inl (''Whisper API error '' @ showNat status @ '': '' @ body)
          else (case json of
                  JsonThrows msg \<Rightarrow> Inl msg
                | JsonText t \<Rightarrow> Inr (case t of None \<Rightarrow> [] | Some x \<Rightarrow> x)))"

text \<open>
  The retry loop \<open>for (let attempt = 1; attempt <= MAX_RETRIES; attempt++)\<close>.
  \<open>api attempt\<close> is what the fetch of that attempt comes to. A caught error whose
  message includes \<open>'400'\<close> breaks out of the loop; otherwise the loop sleeps
  \<open>Math.pow(2, attempt) * 1000\<close> ms when another attempt follows. After the loop the last
  error is thrown.
\<close>

function whisperAttempts ::
  "(nat \<Rightarrow> fetch_outcome) \<Rightarrow> buffer \<Rightarrow> nat \<Rightarrow> jsstring option
     \<Rightarrow> (jsstring + jsstring) \<times> event list" where
  "whisperAttempts api buffer attempt lastError =
     (if attempt \<le> MAX_RETRIES then
        (case attemptFetch (api attempt) of
           Inr transcription \<Rightarrow> (Inr transcription, [WhisperRequest buffer])
         | Inl msg \<Rightarrow>
             if includesStr msg ''400'' then (Inl msg, [WhisperRequest buffer])
             else (let (r, ev) = whisperAttempts api buffer (attempt + 1) (Some msg)
                   in (r, WhisperRequest buffer
                          # (if attempt < MAX_RETRIES then [Backoff (2 ^ attempt * 1000)] else [])
                          @ ev)))
      else (Inl (case lastError of
                   Some msg \<Rightarrow> msg
                 | None \<Rightarrow> ''All transcription attempts failed''), []))"
  by pat_completeness auto
termination
  by (relation "measure (\<lambda>(api, buffer, attempt, lastError). MAX_RETRIES + 1 - attempt)") auto

definition runWhisperOnBuffer ::
  "(nat \<Rightarrow> fetch_outcome) \<Rightarrow> buffer \<Rightarrow> (jsstring + jsstring) \<times> event list" where
  "runWhisperOnBuffer api buffer =
     (if \<not> hasVoiceActivity buffer then (Inr [], [])
      else whisperAttempts api buffer 1 None)"

section \<open>parse-gpt.ts\<close>

text \<open>
  The repository holds two revisions of this module. The one with
  \<open>truncateTranscript\<close> (\<open>src/unnamed/part_008\<close>) is modelled in full: it is the
  one whose imports match the server below. Of the other, \<open>src/parse-gpt.ts\<close>, the
  final sweep is modelled as well.
\<close>

text \<open>
  What a chat-completion request comes to: \<open>openai.chat.completions.create\<close>
  throws; the first choice has no content (\<open>!content\<close>: missing, null or empty);
  the content is not JSON of the expected shape (\<open>JSON.parse\<close> or the access to the
  parsed value throws); or it parses, and the value under the well-known key is read.
\<close>

datatype 'a completion = Throws jsstring | NoContent | Unparsable | Parsed 'a

text \<open>
  A value of the parsed attribute object: a string, or any other JSON value, of which
  only the truthiness matters (\<open>null\<close>, \<open>false\<close> and \<open>0\<close> are falsy; other numbers,
  \<open>true\<close>, arrays and objects are truthy).
\<close>

datatype jsvalue = JString jsstring | JOther bool

text \<open>
  The services a session talks to. \<open>whisperApi buffer attempt\<close> is the outcome of
  the fetch of that attempt for that audio; the other three give the completion for a
  request. For the correction the parsed value is \<open>correctedText\<close> when it is a
  string, and \<open>None\<close> when the key is missing or holds something else (both end in the
  raw text: the first through \<open>!revised\<close>, the second through the \<open>TypeError\<close> of
  \<open>trim\<close>, caught). For the two extractions it is the list of
  \<open>Object.entries\<close> of the attribute object (keys distinct), \<open>None\<close> when the key
  is missing or null.
\<close>

record services =
  whisperApi :: "buffer \<Rightarrow> nat \<Rightarrow> fetch_outcome"
  reviseApi :: "jsstring \<Rightarrow> jsstring option completion"
  extractApi :: "jsstring \<Rightarrow> FieldDef list \<Rightarrow> attrs \<Rightarrow> (jsstring \<times> jsvalue) list option completion"
  finalApi :: "jsstring \<Rightarrow> FieldDef list \<Rightarrow> attrs \<Rightarrow> (jsstring \<times> jsvalue) list option completion"

subsection \<open>truncateTranscript\<close>

definition omittedMarker :: jsstring where
  "omittedMarker = [CHR 0x0A, CHR 0x0A] @ ''[... middle section omitted for length ...]''
                     @ [CHR 0x0A, CHR 0x0A]"

definition truncateTranscript :: "jsstring \<Rightarrow> nat \<Rightarrow> jsstring" where
  "truncateTranscript text maxChars =
     (if length text \<le> maxChars then text
      else let half = maxChars div 2;
               start = take half text;
               end' = sliceLast text half
           in start @ omittedMarker @ end')"

subsection \<open>reviseTranscription\<close>

definition reviseTranscription ::
  "(jsstring \<Rightarrow> jsstring option completion) \<Rightarrow> jsstring \<Rightarrow> (jsstring + jsstring) \<times> event list" where
  "reviseTranscription api rawText =
     (if length (trim rawText) < 15 then (Inr rawText, [])
      else (case api rawText of
              Throws msg \<Rightarrow> (Inl msg, [CorrectionRequest rawText])
            | NoContent \<Rightarrow> (Inr rawText, [CorrectionRequest rawText])
            | Unparsable \<Rightarrow> (Inr rawText, [CorrectionRequest rawText])
            | Parsed correctedText \<Rightarrow>
                (case correctedText of
                   None \<Rightarrow> (Inr rawText, [CorrectionRequest rawText])
                 | Some c \<Rightarrow>
                     (let revised = trim c
                      in if revised = [] then (Inr rawText, [CorrectionRequest rawText])
                         else (Inr revised, [CorrectionRequest rawText])))))"

subsection \<open>The test on a returned value\<close>

text \<open>
  \<open>value && value !== "N/A" && value.trim() !== ""\<close>: \<open>Some True\<close> when the value
  is kept, \<open>Some False\<close> when it is passed over, \<open>None\<close> when the test throws (a
  truthy value that is not a string has no \<open>trim\<close>). The final sweep of
  \<open>src/parse-gpt.ts\<close> writes the same test as
  \<open>val && val !== "N/A" && val.trim() && val !== merged[attr]\<close>.
\<close>

definition keepValue :: "jsvalue \<Rightarrow> bool option" where
  "keepValue v =
     (case v of
        JString s \<Rightarrow> Some (s \<noteq> [] \<and> s \<noteq> ''N/A'' \<and> trim s \<noteq> [])
      | JOther truthy \<Rightarrow> if truthy then None else Some False)"

text \<open>The string a kept value is.\<close>

definition stringOf :: "jsvalue \<Rightarrow> jsstring" where
  "stringOf v = (case v of JString s \<Rightarrow> s | JOther _ \<Rightarrow> [])"

subsection \<open>extractAttributesFromText\<close>

text \<open>
  \<open>Object.entries(result).filter(...)\<close>: the entries kept, in order; \<open>None\<close> when
  the test throws on one of them.
\<close>

fun cleanEntries :: "(jsstring \<times> jsvalue) list \<Rightarrow> (jsstring \<times> jsstring) list option" where
  "cleanEntries [] = Some []"
| "cleanEntries ((k, v) # rest) =
     (case keepValue v of
        None \<Rightarrow> None
      | Some keep \<Rightarrow>
          (case cleanEntries rest of
             None \<Rightarrow> None
           | Some r \<Rightarrow> Some (if keep then (k, stringOf v) # r else r)))"

text \<open>\<open>Object.fromEntries\<close>: a later entry of a key overwrites an earlier one.\<close>

definition fromEntries :: "(jsstring \<times> jsstring) list \<Rightarrow> attrs" where
  "fromEntries es = fold (\<lambda>(k, v) m. m(k \<mapsto> v)) es Map.empty"

definition extractAttributesFromText ::
  "(jsstring \<Rightarrow> FieldDef list \<Rightarrow> attrs \<Rightarrow> (jsstring \<times> jsvalue) list option completion)
     \<Rightarrow> jsstring \<Rightarrow> FieldDef list \<Rightarrow> attrs \<Rightarrow> (jsstring + attrs) \<times> event list" where
  "extractAttributesFromText api correctedText template currAttributes =
     (if length (trim correctedText) < 20 \<or> template = [] then (Inr Map.empty, [])
      else (case api correctedText template currAttributes of
              Throws msg \<Rightarrow> (Inl msg, [ExtractionRequest correctedText])
            | NoContent \<Rightarrow> (Inr Map.empty, [ExtractionRequest correctedText])
            | Unparsable \<Rightarrow> (Inr Map.empty, [ExtractionRequest correctedText])
            | Parsed parsedAttributes \<Rightarrow>
                (let result = (case parsedAttributes of None \<Rightarrow> [] | Some es \<Rightarrow> es)
                 in case cleanEntries result of
                      None \<Rightarrow> (Inr Map.empty, [ExtractionRequest correctedText])
                    | Some cleaned \<Rightarrow>
                        (Inr (fromEntries cleaned), [ExtractionRequest correctedText]))))"

subsection \<open>parseFinalAttributes\<close>

text \<open>
  The merge loop over \<open>Object.entries(finalAttrs)\<close>, \<open>merged\<close> starting as a copy
  of the candidates: a kept value is assigned (\<open>merged[field] = value\<close>) when it
  differs from what \<open>merged\<close> holds for the field. \<open>None\<close> when the test throws: the
  \<open>catch\<close> then returns the candidates.
\<close>

fun mergeLoop :: "(jsstring \<times> jsvalue) list \<Rightarrow> attrs \<Rightarrow> attrs option" where
  "mergeLoop [] merged = Some merged"
| "mergeLoop ((field, val) # rest) merged =
     (case keepValue val of
        None \<Rightarrow> None
      | Some keep \<Rightarrow>
          mergeLoop rest
            (if keep \<and> merged field \<noteq> Some (stringOf val)
             then setAttribute merged field (stringOf val) else merged))"

text \<open>What the function returns once the request has come back.\<close>

definition mergeFinal ::
  "(jsstring \<times> jsvalue) list option completion \<Rightarrow> attrs \<Rightarrow> attrs" where
  "mergeFinal reply candidateAttributes =
     (case reply of
        Throws msg \<Rightarrow> candidateAttributes
      | NoContent \<Rightarrow> candidateAttributes
      | Unparsable \<Rightarrow> candidateAttributes
      | Parsed finalAttributes \<Rightarrow>
          (let finalAttrs = (case finalAttributes of None \<Rightarrow> [] | Some es \<Rightarrow> es)
           in case mergeLoop finalAttrs candidateAttributes of
                None \<Rightarrow> candidateAttributes
              | Some merged \<Rightarrow> merged))"

text \<open>
  The version with \<open>truncateTranscript\<close>: transcripts under 30 characters (trimmed)
  are not sent; the request carries \<open>truncateTranscript(fullTranscript, 6000)\<close>.
\<close>

definition parseFinalAttributes ::
  "(jsstring \<Rightarrow> FieldDef list \<Rightarrow> attrs \<Rightarrow> (jsstring \<times> jsvalue) list option completion)
     \<Rightarrow> jsstring \<Rightarrow> FieldDef list \<Rightarrow> attrs \<Rightarrow> attrs \<times> event list" where
  "parseFinalAttributes api fullTranscript template candidateAttributes =
     (if length (trim fullTranscript) < 30
      then (candidateAttributes, [FinalSweep fullTranscript])
      else (let truncated = truncateTranscript fullTranscript 6000
            in (mergeFinal (api truncated template candidateAttributes) candidateAttributes,
                [FinalSweep fullTranscript, FinalRequest truncated])))"

text \<open>
  The version of \<open>src/parse-gpt.ts\<close>: transcripts under 50 characters (trimmed) are
  not sent; the request carries \<open>fullTranscript.slice(-2000)\<close>.
\<close>

definition parseFinalAttributes_slice ::
  "(jsstring \<Rightarrow> FieldDef list \<Rightarrow> attrs \<Rightarrow> (jsstring \<times> jsvalue) list option completion)
     \<Rightarrow> jsstring \<Rightarrow> FieldDef list \<Rightarrow> attrs \<Rightarrow> attrs \<times> event list" where
  "parseFinalAttributes_slice api fullTranscript template candidateAttributes =
     (if length (trim fullTranscript) < 50
      then (candidateAttributes, [FinalSweep fullTranscript])
      else (let text = sliceLast fullTranscript 2000
            in (mergeFinal (api text template candidateAttributes) candidateAttributes,
                [FinalSweep fullTranscript, FinalRequest text])))"

section \<open>The audio cache\<close>

text \<open>
  \<open>audio-cache.ts\<close> (second file of \<open>src/unnamed/part_008\<close>) keeps transcriptions
  in a \<open>QuickLRU\<close>; an earlier server (second file of \<open>src/unnamed/part_005\<close>)
  keeps them in a \<open>Map\<close> of its own, with the same key function under another name.
\<close>

subsection \<open>Cache keys\<close>

text \<open>
  \<open>buffer.toString('base64')\<close>: three bytes give four digits of the alphabet; a
  last group of one or two bytes is padded with \<open>=\<close>.
\<close>

definition base64Digit :: "nat \<Rightarrow> char" where
  "base64Digit n =
     ''ABCDEFGHIJKLMNOPQRSTUVWXYZabcdefghijklmnopqrstuvwxyz0123456789+/'' ! n"

fun toBase64 :: "buffer \<Rightarrow> jsstring" where
  "toBase64 [] = []"
| "toBase64 [a] =
     [base64Digit (unat a div 4), base64Digit (unat a mod 4 * 16), CHR ''='', CHR ''='']"
| "toBase64 [a, b] =
     [base64Digit (unat a div 4), base64Digit (unat a mod 4 * 16 + unat b div 16),
      base64Digit (unat b mod 16 * 4), CHR ''='']"
| "toBase64 (a # b # c # rest) =
     [base64Digit (unat a div 4), base64Digit (unat a mod 4 * 16 + unat b div 16),
      base64Digit (unat b mod 16 * 4 + unat c div 64), base64Digit (unat c mod 64)]
     @ toBase64 rest"

text \<open>\<open>createAudioKey\<close> of \<open>audio-cache.ts\<close>, and \<open>createCacheKey\<close>, its twin in the
  server that keeps the cache in a \<open>Map\<close>: the first 64 characters of the encoding.\<close>

definition createAudioKey :: "buffer \<Rightarrow> jsstring" where
  "createAudioKey buffer = take 64 (toBase64 buffer)"

definition createCacheKey :: "buffer \<Rightarrow> jsstring" where
  "createCacheKey buffer = take 64 (toBase64 buffer)"

subsection \<open>The cache behind createAudioKey\<close>

text \<open>
  \<open>transcriptionCache\<close> is a \<open>QuickLRU\<close>; while an entry is neither evicted nor
  expired, \<open>set\<close> and \<open>get\<close> are those of a map, which is all that is modelled.
\<close>

type_synonym audio_cache = "jsstring \<rightharpoonup> jsstring"

definition cacheAudio :: "jsstring \<Rightarrow> jsstring \<Rightarrow> audio_cache \<Rightarrow> audio_cache" where
  "cacheAudio cacheKey transcription cache = cache(cacheKey \<mapsto> transcription)"

definition getCachedAudio :: "jsstring \<Rightarrow> audio_cache \<Rightarrow> jsstring option" where
  "getCachedAudio cacheKey cache = cache cacheKey"

subsection \<open>The cache behind createCacheKey\<close>

text \<open>
  A \<open>Map\<close> from keys to \<open>{transcription, timestamp}\<close>, kept here as the list of its
  entries in insertion order. \<open>Map.set\<close> overwrites the value of a key in place and
  appends a new key; \<open>Map.delete\<close> removes the key.
\<close>

type_synonym transcription_cache = "(jsstring \<times> jsstring \<times> int) list"

definition TRANSCRIPTION_CACHE_TTL :: int where
  "TRANSCRIPTION_CACHE_TTL = 60000"

fun mapSet :: "jsstring \<Rightarrow> jsstring \<times> int \<Rightarrow> transcription_cache \<Rightarrow> transcription_cache" where
  "mapSet k v [] = [(k, v)]"
| "mapSet k v ((k', v') # rest) =
     (if k' = k then (k, v) # rest else (k', v') # mapSet k v rest)"

definition mapDelete :: "jsstring \<Rightarrow> transcription_cache \<Rightarrow> transcription_cache" where
  "mapDelete k cache = filter (\<lambda>(k', v'). k' \<noteq> k) cache"

text \<open>
  \<open>getCachedTranscription\<close> at time \<open>now\<close>: the transcription when the entry is
  younger than the time to live; an expired entry is deleted. The cache is returned
  with the result.
\<close>

definition getCachedTranscription ::
  "jsstring \<Rightarrow> int \<Rightarrow> transcription_cache \<Rightarrow> jsstring option \<times> transcription_cache" where
  "getCachedTranscription cacheKey now cache =
     (case map_of cache cacheKey of
        Some (transcription, timestamp) \<Rightarrow>
          if now - timestamp < TRANSCRIPTION_CACHE_TTL then (Some transcription, cache)
          else (None, mapDelete cacheKey cache)
      | None \<Rightarrow> (None, cache))"

text \<open>
  \<open>cacheTranscription\<close> at time \<open>now\<close>: with more than 100 entries the oldest key
  is deleted first, unless it is the empty string (\<open>if (oldestKey)\<close>).
\<close>

definition cacheTranscription ::
  "jsstring \<Rightarrow> jsstring \<Rightarrow> int \<Rightarrow> transcription_cache \<Rightarrow> transcription_cache" where
  "cacheTranscription cacheKey transcription now cache =
     (let cache' =
        (if length cache > 100
         then (case cache of
                 [] \<Rightarrow> cache
               | (oldestKey, v) # rest \<Rightarrow>
                   if oldestKey \<noteq> [] then mapDelete oldestKey cache else cache)
         else cache)
      in mapSet cacheKey (transcription, now) cache')"

section \<open>The WebSocket server\<close>

text \<open>
  The message handler and the queued job of the server in \<open>src/unnamed/part_004\<close>,
  and the start handler of the server with the two caches (first file of
  \<open>src/unnamed/part_005\<close>).
\<close>

subsection \<open>Session state and configuration\<close>

text \<open>The constants and the state interface of \<open>util.ts\<close>.\<close>

definition MIN_CHUNK_NUM :: nat where
  "MIN_CHUNK_NUM = 8"

definition MIN_WORD_COUNT :: nat where
  "MIN_WORD_COUNT = 5"

definition MAX_AUDIO_BUFFER_SIZE :: nat where
  "MAX_AUDIO_BUFFER_SIZE = 1024 * 1024 * 5"

record WSState =
  nchunks :: nat
  audioBuffer :: buffer
  transcript :: jsstring
  currAttributes :: attrs
  template :: "FieldDef list"
  webmHeader :: "buffer option"
  currTranscriptSize :: nat

text \<open>The state a connection starts with.\<close>

definition initialState :: WSState where
  "initialState =
     \<lparr> nchunks = 0, audioBuffer = [], transcript = [], currAttributes = Map.empty,
       template = [], webmHeader = None, currTranscriptSize = 0 \<rparr>"

text \<open>
  Each handler call and each queued job is modelled as running to its end before the
  next one starts; the interleaving of jobs at their \<open>await\<close>s is not modelled.
\<close>

subsection \<open>The start message\<close>

text \<open>
  An element of a block array, as far as its conversion to a string goes. For a
  string, a number, a boolean, an array or a plain object \<open>String(field)\<close> and
  \<open>field.toString()\<close> give the same string. For \<open>null\<close> the first gives
  \<open>"null"\<close> and the second throws. For an object whose own \<open>toString\<close> is not a
  function (in parsed JSON it never is), or an array that holds one, both throw.
\<close>

datatype field_value = Printable jsstring | NullField | Unprintable

text \<open>\<open>String(field)\<close> and \<open>field.toString()\<close>; \<open>None\<close> when the call throws.\<close>

definition String_js :: "field_value \<Rightarrow> jsstring option" where
  "String_js v =
     (case v of Printable s \<Rightarrow> Some s | NullField \<Rightarrow> Some ''null'' | Unprintable \<Rightarrow> None)"

definition toString_js :: "field_value \<Rightarrow> jsstring option" where
  "toString_js v =
     (case v of Printable s \<Rightarrow> Some s | NullField \<Rightarrow> None | Unprintable \<Rightarrow> None)"

text \<open>
  The value of a key of \<open>msg.blocks\<close>: an array with its elements, or something that
  is not an array. A handler receives the entries of the blocks in the order of
  \<open>Object.keys\<close>.
\<close>

datatype block = NotArray | Fields "field_value list"

text \<open>
  The inner loop over the elements of a block: the name is converted, the field is
  pushed on the template and its attribute is assigned the empty string. \<open>Inl\<close> is
  the state reached when a conversion threw; the fields before it stay pushed.
\<close>

fun pushFields ::
  "(field_value \<Rightarrow> jsstring option) \<Rightarrow> jsstring \<Rightarrow> field_value list \<Rightarrow> WSState
     \<Rightarrow> WSState + WSState" where
  "pushFields conv temp_block [] s = Inr s"
| "pushFields conv temp_block (v # rest) s =
     (case conv v of
        None \<Rightarrow> Inl s
      | Some name \<Rightarrow>
          pushFields conv temp_block rest
            (s\<lparr> template := template s @ [\<lparr> block_name = temp_block, field_name = name \<rparr>],
                currAttributes := setAttribute (currAttributes s) name [] \<rparr>))"

text \<open>
  The outer loop of the handler that acknowledges, over the keys of
  \<open>msg.blocks ?? {}\<close>: a value that is not an array is skipped, the names are
  \<open>String(field)\<close>.
\<close>

fun pushBlocks :: "(jsstring \<times> block) list \<Rightarrow> WSState \<Rightarrow> WSState + WSState" where
  "pushBlocks [] s = Inr s"
| "pushBlocks ((temp_block, b) # rest) s =
     (case b of
        NotArray \<Rightarrow> pushBlocks rest s
      | Fields vs \<Rightarrow>
          (case pushFields String_js temp_block vs s of
             Inl s' \<Rightarrow> Inl s'
           | Inr s' \<Rightarrow> pushBlocks rest s'))"

text \<open>
  The handler that acknowledges: inside its \<open>try\<close> the template is filled only
  while it is empty, and \<open>{action: "started", template_size}\<close> is sent; when a
  conversion throws, the \<open>catch\<close> sends \<open>bad-start-payload\<close> and the fields pushed
  so far stay.
\<close>

definition handleStart :: "WSState \<Rightarrow> (jsstring \<times> block) list \<Rightarrow> WSState \<times> event list" where
  "handleStart s blocks =
     (if template s = []
      then (case pushBlocks blocks s of
              Inl s' \<Rightarrow> (s', [Sent (ErrorOnly ''bad-start-payload'')])
            | Inr s' \<Rightarrow> (s', [Sent (Started (length (template s')))]))
      else (s, [Sent (Started (length (template s)))]))"

text \<open>
  The handler of the server with the two caches: no acknowledgement and no
  \<open>try\<close>; \<open>block.forEach\<close> throws on a value that is not an array, as
  \<open>Object.keys\<close> does on missing blocks (\<open>None\<close>), and the names are
  \<open>field.toString()\<close>. \<open>Inl\<close> is the state reached when it threw.
\<close>

fun pushBlocks_strict :: "(jsstring \<times> block) list \<Rightarrow> WSState \<Rightarrow> WSState + WSState" where
  "pushBlocks_strict [] s = Inr s"
| "pushBlocks_strict ((temp_block, b) # rest) s =
     (case b of
        NotArray \<Rightarrow> Inl s
      | Fields vs \<Rightarrow>
          (case pushFields toString_js temp_block vs s of
             Inl s' \<Rightarrow> Inl s'
           | Inr s' \<Rightarrow> pushBlocks_strict rest s'))"

definition handleStart_silent ::
  "WSState \<Rightarrow> (jsstring \<times> block) list option \<Rightarrow> (WSState + WSState) \<times> event list" where
  "handleStart_silent s blocks =
     (if template s = []
      then (case blocks of
              None \<Rightarrow> (Inl s, [])
            | Some bs \<Rightarrow> (pushBlocks_strict bs s, []))
      else (Inr s, []))"

subsection \<open>A binary frame\<close>

text \<open>The first chunk with the magic number is kept, whole, as the header.\<close>

definition captureHeader :: "WSState \<Rightarrow> buffer \<Rightarrow> WSState" where
  "captureHeader s chunk =
     (if webmHeader s = None \<and> checkWebMIntegrity chunk
      then s\<lparr> webmHeader := Some chunk \<rparr> else s)"

definition appendChunk :: "WSState \<Rightarrow> buffer \<Rightarrow> WSState" where
  "appendChunk s chunk =
     s\<lparr> audioBuffer := audioBuffer s @ chunk, nchunks := nchunks s + 1 \<rparr>"

text \<open>
  \<open>if (!checkWebMIntegrity(state.audioBuffer) && state.webmHeader)
  state.audioBuffer = Buffer.concat([state.webmHeader, state.audioBuffer])\<close>.
\<close>

definition prependHeader :: "WSState \<Rightarrow> WSState" where
  "prependHeader s =
     (case webmHeader s of
        Some header \<Rightarrow>
          if \<not> checkWebMIntegrity (audioBuffer s)
          then s\<lparr> audioBuffer := header @ audioBuffer s \<rparr> else s
      | None \<Rightarrow> s)"

definition resetCapture :: "WSState \<Rightarrow> WSState" where
  "resetCapture s = s\<lparr> audioBuffer := [], nchunks := 0 \<rparr>"

text \<open>
  The handler of a binary frame: the states it passes through, one after each group
  of assignments, and its events. A frame that would overflow the buffer changes
  nothing. At the cut-over the snapshot \<open>captureBuffer\<close> is the buffer after the
  header was put in front.
\<close>

definition binaryFrame :: "WSState \<Rightarrow> buffer \<Rightarrow> WSState list \<times> event list" where
  "binaryFrame s chunk =
     (if length (audioBuffer s) + length chunk > MAX_AUDIO_BUFFER_SIZE
      then ([], [Sent (ErrorOnly ''audio-buffer-overflow'')])
      else let s1 = captureHeader s chunk;
               s2 = appendChunk s1 chunk
           in if nchunks s2 < MIN_CHUNK_NUM then ([s1, s2], [])
              else if \<not> hasVoiceActivity (audioBuffer s2)
              then ([s1, s2, resetCapture s2], [])
              else let s3 = prependHeader s2;
                       captureBuffer = audioBuffer s3
                   in ([s1, s2, s3, resetCapture s3], [Queued captureBuffer]))"

definition handleBinary :: "WSState \<Rightarrow> buffer \<Rightarrow> WSState \<times> event list" where
  "handleBinary s chunk =
     (last (s # fst (binaryFrame s chunk)), snd (binaryFrame s chunk))"

subsection \<open>The queued transcription job\<close>

definition transcriptionJob :: "services \<Rightarrow> WSState \<Rightarrow> buffer \<Rightarrow> WSState \<times> event list" where
  "transcriptionJob env s captureBuffer =
     (case runWhisperOnBuffer (whisperApi env captureBuffer) captureBuffer of
        (Inl msg, ev) \<Rightarrow> (s, ev @ [Sent (ErrorOnly ''transcription-failed'')])
      | (Inr transcription, ev) \<Rightarrow>
          (case reviseTranscription (reviseApi env) transcription of
             (Inl msg, ev') \<Rightarrow> (s, ev @ ev' @ [Sent (ErrorOnly ''transcription-failed'')])
           | (Inr revisedTranscript, ev') \<Rightarrow>
               if wordCount revisedTranscript < MIN_WORD_COUNT then (s, ev @ ev')
               else
                 (let prevTranscriptSize = currTranscriptSize s;
                      (t, g) = appendWithOverlap (transcript s) revisedTranscript;
                      s1 = s\<lparr> transcript := t, currTranscriptSize := g \<rparr>;
                      currTranscript =
                        sliceLast (transcript s1) (prevTranscriptSize + currTranscriptSize s1)
                  in case extractAttributesFromText (extractApi env) currTranscript
                            (template s1) (currAttributes s1) of
                       (Inl msg, ev'') \<Rightarrow>
                         (s1, ev @ ev' @ ev'' @ [Sent (ErrorOnly ''transcription-failed'')])
                     | (Inr extractedAttributes, ev'') \<Rightarrow>
                         (let s2 = s1\<lparr> currAttributes :=
                                          currAttributes s1 ++ extractedAttributes \<rparr>
                          in (s2, ev @ ev' @ ev''
                                    @ [Sent (Update currTranscript (currAttributes s2))])))))"

subsection \<open>The stop message\<close>

text \<open>
  The first half of the \<open>try\<close> block: the residual audio is transcribed when the
  voice gate passes, corrected when the raw text has enough words, and stitched.
  \<open>Inl\<close> when a call throws.
\<close>

definition transcribeResidual ::
  "services \<Rightarrow> WSState \<Rightarrow> buffer \<Rightarrow> (jsstring + WSState) \<times> event list" where
  "transcribeResidual env s remainingData =
     (if \<not> hasVoiceActivity remainingData then (Inr s, [])
      else (case runWhisperOnBuffer (whisperApi env remainingData) remainingData of
              (Inl msg, ev) \<Rightarrow> (Inl msg, ev)
            | (Inr rawFinalTranscription, ev) \<Rightarrow>
                if wordCount rawFinalTranscription \<ge> MIN_WORD_COUNT
                then (case reviseTranscription (reviseApi env) rawFinalTranscription of
                        (Inl msg, ev') \<Rightarrow> (Inl msg, ev @ ev')
                      | (Inr finalTranscription, ev') \<Rightarrow>
                          (let (t, g) = appendWithOverlap (transcript s) finalTranscription
                           in (Inr (s\<lparr> transcript := t, currTranscriptSize := g \<rparr>),
                               ev @ ev')))
                else (Inr s, ev)))"

text \<open>The residual audio with the header put in front when it lacks one.\<close>

definition residualAudio :: "WSState \<Rightarrow> buffer" where
  "residualAudio s =
     (case webmHeader s of
        Some header \<Rightarrow>
          if \<not> checkWebMIntegrity (audioBuffer s) then header @ audioBuffer s
          else audioBuffer s
      | None \<Rightarrow> audioBuffer s)"

definition handleStop :: "services \<Rightarrow> WSState \<Rightarrow> WSState \<times> event list" where
  "handleStop env s =
     (if audioBuffer s = []
      then (s, [QueueIdle, Sent (Update (transcript s) (currAttributes s))])
      else
        (let remainingData = residualAudio s;
             s1 = s\<lparr> audioBuffer := [], nchunks := 0, webmHeader := None \<rparr>
         in case transcribeResidual env s1 remainingData of
              (Inl msg, ev) \<Rightarrow>
                (s1, QueueIdle # ev
                       @ [Sent (UpdateWithError (transcript s1) (currAttributes s1)
                                  ''final-processing-failed'')])
            | (Inr s2, ev) \<Rightarrow>
                (let (final, ev') = parseFinalAttributes (finalApi env) (transcript s2)
                                      (template s2) (currAttributes s2);
                     s3 = s2\<lparr> currAttributes := final \<rparr>
                 in (s3, QueueIdle # ev @ ev'
                           @ [Sent (Update (transcript s3) (currAttributes s3))]))))"

subsection \<open>A session\<close>

text \<open>
  A text frame is not JSON, or a start message with its blocks, or a stop message, or
  JSON with another action; a binary frame carries a chunk.
\<close>

datatype message =
    BadJson
  | Start "(jsstring \<times> block) list"
  | Stop
  | OtherAction
  | Binary buffer

definition onMessage :: "services \<Rightarrow> WSState \<Rightarrow> message \<Rightarrow> WSState \<times> event list" where
  "onMessage env s m =
     (case m of
        BadJson \<Rightarrow> (s, [Sent (ErrorOnly ''bad-json'')])
      | Start blocks \<Rightarrow> handleStart s blocks
      | Stop \<Rightarrow> handleStop env s
      | OtherAction \<Rightarrow> (s, [])
      | Binary chunk \<Rightarrow> handleBinary s chunk)"

text \<open>
  What happens on a connection, one thing after the other: a message is handled, or
  a job of the queue runs on the snapshot it was queued with.
\<close>

datatype step = Message message | RunJob buffer

definition sessionStep :: "services \<Rightarrow> WSState \<Rightarrow> step \<Rightarrow> WSState \<times> event list" where
  "sessionStep env s st =
     (case st of
        Message m \<Rightarrow> onMessage env s m
      | RunJob captureBuffer \<Rightarrow> transcriptionJob env s captureBuffer)"

fun session :: "services \<Rightarrow> WSState \<Rightarrow> step list \<Rightarrow> WSState \<times> event list" where
  "session env s [] = (s, [])"
| "session env s (st # rest) =
     (let (s', ev) = sessionStep env s st;
          (s'', ev') = session env s' rest
      in (s'', ev @ ev'))"

text \<open>
  The states a step passes through: those of \<open>binaryFrame\<close> for a binary frame, and
  the state at its end for any other step.
\<close>

definition stepPoints :: "services \<Rightarrow> WSState \<Rightarrow> step \<Rightarrow> WSState list" where
  "stepPoints env s st =
     (case st of
        Message (Binary chunk) \<Rightarrow> fst (binaryFrame s chunk)
      | _ \<Rightarrow> [fst (sessionStep env s st)])"

fun sessionPoints :: "services \<Rightarrow> WSState \<Rightarrow> step list \<Rightarrow> WSState list" where
  "sessionPoints env s [] = []"
| "sessionPoints env s (st # rest) =
     stepPoints env s st @ sessionPoints env (fst (sessionStep env s st)) rest"

section \<open>Notions used in the statements\<close>

text \<open>
  Every element of every array of the blocks converts to a string.
\<close>

fun fieldsConvert ::
  "(field_value \<Rightarrow> jsstring option) \<Rightarrow> (jsstring \<times> block) list \<Rightarrow> bool" where
  "fieldsConvert conv [] = True"
| "fieldsConvert conv ((temp_block, NotArray) # rest) = fieldsConvert conv rest"
| "fieldsConvert conv ((temp_block, Fields vs) # rest) =
     (list_all (\<lambda>v. conv v \<noteq> None) vs \<and> fieldsConvert conv rest)"

text \<open>
  The template a start message asks for: one entry per element that converts, of
  every array-valued block, in the order of the message.
\<close>

fun startFields ::
  "(field_value \<Rightarrow> jsstring option) \<Rightarrow> (jsstring \<times> block) list \<Rightarrow> FieldDef list" where
  "startFields conv [] = []"
| "startFields conv ((temp_block, NotArray) # rest) = startFields conv rest"
| "startFields conv ((temp_block, Fields vs) # rest) =
     map (\<lambda>name. \<lparr> block_name = temp_block, field_name = name \<rparr>) (List.map_filter conv vs)
     @ startFields conv rest"

text \<open>
  Every field of the template, but one named \<open>__proto__\<close>, has the empty string as
  its attribute.
\<close>

definition attributesBlank :: "WSState \<Rightarrow> bool" where
  "attributesBlank s =
     (\<forall>d \<in> set (template s).
        field_name d \<noteq> ''__proto__'' \<longrightarrow> currAttributes s (field_name d) = Some [])"

text \<open>The state a loop ends in, whether it threw or not.\<close>

definition reached :: "WSState + WSState \<Rightarrow> WSState" where
  "reached r = (case r of Inl s \<Rightarrow> s | Inr s \<Rightarrow> s)"

text \<open>
  The buffer, and the stored header, are within the configured size.
\<close>

definition bufferBounded :: "WSState \<Rightarrow> bool" where
  "bufferBounded s =
     (length (audioBuffer s) \<le> MAX_AUDIO_BUFFER_SIZE
      \<and> (case webmHeader s of None \<Rightarrow> True | Some header \<Rightarrow> length header \<le> MAX_AUDIO_BUFFER_SIZE))"

text \<open>
  A request to a service or a sleep: neither a response nor a sweep.
\<close>

fun isCall :: "event \<Rightarrow> bool" where
  "isCall (WhisperRequest b) = True"
| "isCall (Backoff n) = True"
| "isCall (CorrectionRequest t) = True"
| "isCall (ExtractionRequest t) = True"
| "isCall (FinalRequest t) = True"
| "isCall e = False"

text \<open>
  Among the events, \<open>parseFinalAttributes\<close> is called with the transcript \<open>t\<close>
  before anything is sent.
\<close>

fun sweepBeforeResponse :: "jsstring \<Rightarrow> event list \<Rightarrow> bool" where
  "sweepBeforeResponse t [] = False"
| "sweepBeforeResponse t (FinalSweep t' # ev) = (t' = t \<or> sweepBeforeResponse t ev)"
| "sweepBeforeResponse t (Sent r # ev) = False"
| "sweepBeforeResponse t (e # ev) = sweepBeforeResponse t ev"

section \<open>Example inputs\<close>

text \<open>
  Audio that passes the voice gate: 500 bytes of 0 and 500 bytes of 255 have the
  variance 16256.25. The four bytes of the magic number.
\<close>

definition voicedAudio :: buffer where
  "voicedAudio = replicate 500 0 @ replicate 500 255"

definition webmMagic :: buffer where
  "webmMagic = [0x1a, 0x45, 0xdf, 0xa3]"

text \<open>
  Services that cannot be reached; services where the transcription hears four
  words and the correction makes five of them; services where the transcription hears
  two words, too short a text for the correction to be asked.
\<close>

definition offlineServices :: services where
  "offlineServices =
     \<lparr> whisperApi = (\<lambda>buffer attempt. Rejects ''fetch failed''),
       reviseApi = (\<lambda>rawText. Throws ''Connection error.''),
       extractApi = (\<lambda>text tpl attributes. Throws ''Connection error.''),
       finalApi = (\<lambda>text tpl attributes. Throws ''Connection error.'') \<rparr>"

definition greetingServices :: services where
  "greetingServices =
     \<lparr> whisperApi = (\<lambda>buffer attempt.
                       Resolves 200 [] (JsonText (Some ''um, good morning everyone''))),
       reviseApi = (\<lambda>rawText. Parsed (Some ''Good morning to everyone here'')),
       extractApi = (\<lambda>text tpl attributes. NoContent),
       finalApi = (\<lambda>text tpl attributes. NoContent) \<rparr>"

definition curtServices :: services where
  "curtServices =
     \<lparr> whisperApi = (\<lambda>buffer attempt. Resolves 200 [] (JsonText (Some ''good morning''))),
       reviseApi = (\<lambda>rawText. Parsed (Some ''Good morning to everyone here'')),
       extractApi = (\<lambda>text tpl attributes. NoContent),
       finalApi = (\<lambda>text tpl attributes. NoContent) \<rparr>"

text \<open>
  A session state that has only collected audio so far.
\<close>

definition capturing :: "nat \<Rightarrow> buffer \<Rightarrow> buffer option \<Rightarrow> WSState" where
  "capturing n buf header =
     \<lparr> nchunks = n, audioBuffer = buf, transcript = [], currAttributes = Map.empty,
       template = [], webmHeader = header, currTranscriptSize = 0 \<rparr>"

text \<open>
  Eight binary frames: a first chunk of voiced audio without the magic number, the
  magic number as the second chunk, and six single bytes. Together they are exactly
  \<open>MAX_AUDIO_BUFFER_SIZE\<close> bytes.
\<close>

definition headerLate :: "step list" where
  "headerLate =
     [Message (Binary (voicedAudio @ replicate 5241870 0)), Message (Binary webmMagic),
      Message (Binary [0]), Message (Binary [0]), Message (Binary [0]),
      Message (Binary [0]), Message (Binary [0]), Message (Binary [0])]"

text \<open>
  The state after one frame that fills the buffer to the limit.
\<close>

definition fullBuffer :: WSState where
  "fullBuffer = capturing 1 (replicate 5242880 0) None"

text \<open>
  A start message with one block of two fields.
\<close>

definition idBlocks :: "(jsstring \<times> block) list" where
  "idBlocks = [(''id'', Fields [Printable ''name'', Printable ''dob''])]"



text \<open>
  A session in which the last two stitches added nothing: the transcript already
  ends with the text that comes back.
\<close>

definition repeated :: WSState where
  "repeated = initialState\<lparr> transcript := ''Hello all. Good morning to everyone here'',
                             currTranscriptSize := 0 \<rparr>"

text \<open>
  An answer of the final sweep: \<open>"N/A"\<close> for the name, a date for the date of
  birth.
\<close>

definition sweepReply :: "(jsstring \<times> jsvalue) list option completion" where
  "sweepReply = Parsed (Some [(''name'', JString ''N/A''), (''dob'', JString ''1 May 1990'')])"

section \<open>The overlap stitcher finds the longest overlap\<close>

lemma overlapLoop_largest:
  assumes "i \<le> min (length base) (length addition)"
  shows "\<exists>k\<le>i. drop (length base - k) base = take k addition
          \<and> (\<forall>j\<le>i. drop (length base - j) base = take j addition \<longrightarrow> j \<le> k)
          \<and> overlapLoop base addition i = (base @ drop k addition, length addition - k)"
  using assms
proof (induction i)
  case 0
  then show ?case by simp
next
  case (Suc n)
  show ?case
  proof (cases "endsWith base (take (Suc n) addition)")
    case True
    with Suc.prems have "drop (length base - Suc n) base = take (Suc n) addition"
      by (simp add: endsWith_def min_def split: if_splits)
    with True show ?thesis by (intro exI[of _ "Suc n"]) simp
  next
    case False
    with Suc.prems have ne: "drop (length base - Suc n) base \<noteq> take (Suc n) addition"
      by (simp add: endsWith_def min_def split: if_splits)
    from Suc obtain k where k: "k \<le> n" "drop (length base - k) base = take k addition"
      "\<forall>j\<le>n. drop (length base - j) base = take j addition \<longrightarrow> j \<le> k"
      "overlapLoop base addition n = (base @ drop k addition, length addition - k)"
      by auto
    have "\<forall>j\<le>Suc n. drop (length base - j) base = take j addition \<longrightarrow> j \<le> k"
      using k(3) ne by (metis le_Suc_eq)
    with k False show ?thesis by (intro exI[of _ k]) simp
  qed
qed

lemma appendWithOverlap_shape:
  "\<exists>k\<le>min (length base) (length addition).
      drop (length base - k) base = take k addition
    \<and> appendWithOverlap base addition = (base @ drop k addition, length addition - k)"
  using overlapLoop_largest[of "min (length base) (length addition)" base addition]
  unfolding appendWithOverlap_def by blast

text \<open>
  C1. For all strings \<open>base\<close> and \<open>addition\<close>, \<open>appendWithOverlap base addition\<close> is
  \<open>(base + addition[k:], len(addition) - k)\<close> for the largest \<open>k\<close> between 0 and
  \<open>min(len(base), len(addition))\<close> such that the last \<open>k\<close> characters of \<open>base\<close> are
  the first \<open>k\<close> characters of \<open>addition\<close>; and stitching the empty string returns
  \<open>(base, 0)\<close>.
\<close>

theorem appendWithOverlap_longest_overlap:
  "(\<exists>k\<le>min (length base) (length addition).
        drop (length base - k) base = take k addition
      \<and> (\<forall>j\<le>min (length base) (length addition).
            drop (length base - j) base = take j addition \<longrightarrow> j \<le> k)
      \<and> appendWithOverlap base addition = (base @ drop k addition, length addition - k))
   \<and> appendWithOverlap base [] = (base, 0)"
proof
  show "\<exists>k\<le>min (length base) (length addition).
        drop (length base - k) base = take k addition
      \<and> (\<forall>j\<le>min (length base) (length addition).
            drop (length base - j) base = take j addition \<longrightarrow> j \<le> k)
      \<and> appendWithOverlap base addition = (base @ drop k addition, length addition - k)"
    using overlapLoop_largest[of "min (length base) (length addition)" base addition]
    unfolding appendWithOverlap_def by simp
  show "appendWithOverlap base [] = (base, 0)"
    by (simp add: appendWithOverlap_def)
qed

text \<open>
  At \<open>base = "hello wor"\<close> and \<open>addition = "world"\<close> the overlaps are \<open>k = 0\<close> and
  \<open>k = 3\<close> (\<open>"wor"\<close>); the longest one is taken.
\<close>

theorem appendWithOverlap_longest_overlap_witness:
  "appendWithOverlap ''hello wor'' ''world'' = (''hello world'', 2)
   \<and> drop (length ''hello wor'' - 3) ''hello wor'' = take 3 ''world''
   \<and> (\<exists>k\<le>min (length ''hello wor'') (length ''world'').
        drop (length ''hello wor'' - k) ''hello wor'' = take k ''world''
      \<and> (\<forall>j\<le>min (length ''hello wor'') (length ''world'').
            drop (length ''hello wor'' - j) ''hello wor'' = take j ''world'' \<longrightarrow> j \<le> k)
      \<and> appendWithOverlap ''hello wor'' ''world''
          = (''hello wor'' @ drop k ''world'', length ''world'' - k))"
proof (intro conjI)
  show "appendWithOverlap ''hello wor'' ''world'' = (''hello world'', 2)"
    by (simp add: appendWithOverlap_def endsWith_def)
  show "drop (length ''hello wor'' - 3) ''hello wor'' = take 3 ''world''"
    by simp
  show "\<exists>k\<le>min (length ''hello wor'') (length ''world'').
        drop (length ''hello wor'' - k) ''hello wor'' = take k ''world''
      \<and> (\<forall>j\<le>min (length ''hello wor'') (length ''world'').
            drop (length ''hello wor'' - j) ''hello wor'' = take j ''world'' \<longrightarrow> j \<le> k)
      \<and> appendWithOverlap ''hello wor'' ''world''
          = (''hello wor'' @ drop k ''world'', length ''world'' - k)"
    by (rule conjunct1[OF appendWithOverlap_longest_overlap[of "''hello wor''" "''world''"]])
qed

text \<open>
  C9. For all strings \<open>base\<close> and \<open>addition\<close>, the merged string has \<open>base\<close> as a
  prefix and \<open>addition\<close> as a suffix, its length is \<open>len(base)\<close> plus the returned
  growth, and the growth is at most \<open>len(addition)\<close> (and, a natural number, at least
  0): stitching never shrinks the transcript, which then ends with the new fragment.
\<close>

theorem appendWithOverlap_prefix_suffix_growth:
  "prefix base (fst (appendWithOverlap base addition))
   \<and> suffix addition (fst (appendWithOverlap base addition))
   \<and> length (fst (appendWithOverlap base addition))
       = length base + snd (appendWithOverlap base addition)
   \<and> snd (appendWithOverlap base addition) \<le> length addition"
proof -
  obtain k where k: "k \<le> min (length base) (length addition)"
      "drop (length base - k) base = take k addition"
      "appendWithOverlap base addition = (base @ drop k addition, length addition - k)"
    using appendWithOverlap_shape[of base addition] by blast
  have "base @ drop k addition
          = take (length base - k) base @ drop (length base - k) base @ drop k addition"
    by simp
  also have "\<dots> = take (length base - k) base @ addition"
    using k(2) by simp
  finally have "suffix addition (base @ drop k addition)"
    by (simp add: suffix_def)
  with k(1,3) show ?thesis by simp
qed
section \<open>The retry policy of the transcription client\<close>

lemma hasVoiceActivity_voicedAudio: "hasVoiceActivity (voicedAudio @ rest)"
  by (simp add: voicedAudio_def hasVoiceActivity_def MIN_AUDIO_SIZE_BYTES_def Let_def
        sum_list_replicate power2_eq_square)

text \<open>
  An error whose message includes \<open>'400'\<close> ends the loop at once: one request, no
  sleep, and the error is thrown.
\<close>

lemma whisperAttempts_aborts_on_400:
  "attempt \<le> MAX_RETRIES \<Longrightarrow> attemptFetch (api attempt) = Inl msg \<Longrightarrow> includesStr msg ''400'' \<Longrightarrow>
   whisperAttempts api buffer attempt lastError = (Inl msg, [WhisperRequest buffer])"
  by simp

text \<open>
  C5. The claim is that \<open>runWhisperOnBuffer\<close> makes up to a fixed number of attempts
  with a backoff between them, and gives up at once on every client-error (4xx)
  response. The test of the source is \<open>error.message.includes('400')\<close>, so a 401
  whose body does not contain \<open>400\<close> is retried like a server error: two requests
  with a sleep of 2000 ms between them, then the error is thrown.
\<close>

theorem runWhisperOnBuffer_retries_401:
  "runWhisperOnBuffer (\<lambda>attempt. Resolves 401 ''Unauthorized'' (JsonText None)) voicedAudio
     = (Inl ''Whisper API error 401: Unauthorized'',
        [WhisperRequest voicedAudio, Backoff 2000, WhisperRequest voicedAudio])"
proof -
  have v: "hasVoiceActivity voicedAudio"
    using hasVoiceActivity_voicedAudio[of "[]"] by simp
  show ?thesis
    by (simp add: runWhisperOnBuffer_def v MAX_RETRIES_def attemptFetch_def)
qed

section \<open>The final attribute sweep\<close>

subsection \<open>The text the final request carries\<close>


text \<open>
  So the sweep that uses it sends the whole transcript up to 6000 characters, and the
  first and the last 3000 characters of a longer one.
\<close>

lemma parseFinalAttributes_request:
  "30 \<le> length (trim fullTranscript) \<Longrightarrow>
   snd (parseFinalAttributes api fullTranscript tpl candidateAttributes)
     = [FinalSweep fullTranscript,
        FinalRequest
          (if length fullTranscript \<le> 6000 then fullTranscript
           else take 3000 fullTranscript @ omittedMarker
                  @ drop (length fullTranscript - 3000) fullTranscript)]"
  by (simp add: parseFinalAttributes_def truncateTranscript_def Let_def sliceLast_def)

text \<open>
  An earlier revision, \<open>src/parse-gpt.ts\<close>, sends the last 2000 characters only (its
  comment: use only last 2000 chars for context).
\<close>

lemma parseFinalAttributes_slice_request:
  "50 \<le> length (trim fullTranscript) \<Longrightarrow>
   snd (parseFinalAttributes_slice api fullTranscript tpl candidateAttributes)
     = [FinalSweep fullTranscript, FinalRequest (sliceLast fullTranscript 2000)]"
  by (simp add: parseFinalAttributes_slice_def Let_def)





subsection \<open>The merge of the returned values\<close>

lemma keepValue_True:
  "keepValue v = Some True \<Longrightarrow> \<exists>s. v = JString s \<and> s \<noteq> [] \<and> s \<noteq> ''N/A''"
  by (cases v) (auto simp: keepValue_def split: if_splits)

lemma mergeLoop_changed:
  "mergeLoop es m = Some r \<Longrightarrow> r f \<noteq> m f \<Longrightarrow>
     \<exists>s. (f, JString s) \<in> set es \<and> s \<noteq> [] \<and> s \<noteq> ''N/A'' \<and> r f = Some s"
proof (induction es arbitrary: m)
  case Nil
  then show ?case by simp
next
  case (Cons e es)
  obtain k v where e: "e = (k, v)" by (cases e)
  from Cons.prems(1) obtain keep where keep: "keepValue v = Some keep"
    by (cases "keepValue v") (auto simp: e)
  define m' where
    "m' = (if keep \<and> m k \<noteq> Some (stringOf v) then setAttribute m k (stringOf v) else m)"
  from Cons.prems(1) have loop: "mergeLoop es m' = Some r"
    by (simp add: e keep m'_def)
  show ?case
  proof (cases "r f = m' f")
    case False
    from Cons.IH[OF loop False] show ?thesis by auto
  next
    case True
    with Cons.prems(2) have ne: "m' f \<noteq> m f" by simp
    then have upd: "keep" "k = f" "m' f = Some (stringOf v)"
      by (auto simp: m'_def setAttribute_def split: if_splits)
    from keep upd(1) have "keepValue v = Some True" by simp
    from keepValue_True[OF this] obtain s where s: "v = JString s" "s \<noteq> []" "s \<noteq> ''N/A''"
      by auto
    with upd True show ?thesis by (auto simp: e stringOf_def)
  qed
qed

lemma mergeLoop_retained:
  "mergeLoop es m = Some r \<Longrightarrow> \<forall>v. (f, v) \<in> set es \<longrightarrow> keepValue v \<noteq> Some True \<Longrightarrow> r f = m f"
proof (induction es arbitrary: m)
  case Nil
  then show ?case by simp
next
  case (Cons e es)
  obtain k v where e: "e = (k, v)" by (cases e)
  from Cons.prems(1) obtain keep where keep: "keepValue v = Some keep"
    by (cases "keepValue v") (auto simp: e)
  define m' where
    "m' = (if keep \<and> m k \<noteq> Some (stringOf v) then setAttribute m k (stringOf v) else m)"
  from Cons.prems(1) have loop: "mergeLoop es m' = Some r"
    by (simp add: e keep m'_def)
  from Cons.prems(2) have "\<forall>v. (f, v) \<in> set es \<longrightarrow> keepValue v \<noteq> Some True" by simp
  from Cons.IH[OF loop this] have "r f = m' f" .
  moreover have "m' f = m f"
    using Cons.prems(2) keep by (auto simp: m'_def e setAttribute_def)
  ultimately show ?case by simp
qed

lemma mergeFinal_changed:
  "mergeFinal reply cand f \<noteq> cand f \<Longrightarrow>
     \<exists>es s. reply = Parsed (Some es) \<and> (f, JString s) \<in> set es
          \<and> s \<noteq> [] \<and> s \<noteq> ''N/A'' \<and> mergeFinal reply cand f = Some s"
  by (auto simp: mergeFinal_def split: completion.splits option.splits dest: mergeLoop_changed)

lemma mergeFinal_retained:
  "reply = Parsed (Some es) \<Longrightarrow>
   \<forall>v. (f, v) \<in> set es \<longrightarrow> v = JString [] \<or> v = JString ''N/A'' \<Longrightarrow>
   mergeFinal reply cand f = cand f"
proof -
  assume r: "reply = Parsed (Some es)"
    and a: "\<forall>v. (f, v) \<in> set es \<longrightarrow> v = JString [] \<or> v = JString ''N/A''"
  have "\<forall>v. (f, v) \<in> set es \<longrightarrow> keepValue v \<noteq> Some True"
    using a by (auto simp: keepValue_def)
  then show ?thesis
    using r by (auto simp: mergeFinal_def split: option.splits dest: mergeLoop_retained)
qed

lemma mergeFinal_absent:
  "reply \<noteq> Parsed (Some es) \<Longrightarrow> \<forall>es. reply \<noteq> Parsed (Some es) \<Longrightarrow> mergeFinal reply cand = cand"
  by (auto simp: mergeFinal_def split: completion.splits option.splits)

text \<open>
  C6. In the merge of the final sweep, for every field \<open>f\<close> (of the template or not):
  the result differs from the candidate value only where the model returned, for
  \<open>f\<close>, a string that is neither empty nor \<open>"N/A"\<close>, and the result is then that
  string; and when every value the model returned for \<open>f\<close> is empty or \<open>"N/A"\<close>
  (none at all when the field is absent from the output or there is no parsed output)
  the candidate value is kept. Both versions of \<open>parseFinalAttributes\<close> merge alike.
\<close>

theorem finalSweep_merge_policy:
  "(fst (parseFinalAttributes api fullTranscript tpl cand) f \<noteq> cand f \<longrightarrow>
      (\<exists>es s. api (truncateTranscript fullTranscript 6000) tpl cand = Parsed (Some es)
          \<and> (f, JString s) \<in> set es \<and> s \<noteq> [] \<and> s \<noteq> ''N/A''
          \<and> fst (parseFinalAttributes api fullTranscript tpl cand) f = Some s))
   \<and> ((\<forall>es. api (truncateTranscript fullTranscript 6000) tpl cand = Parsed (Some es) \<longrightarrow>
          (\<forall>v. (f, v) \<in> set es \<longrightarrow> v = JString [] \<or> v = JString ''N/A'')) \<longrightarrow>
        fst (parseFinalAttributes api fullTranscript tpl cand) f = cand f)
   \<and> (fst (parseFinalAttributes_slice api fullTranscript tpl cand) f \<noteq> cand f \<longrightarrow>
      (\<exists>es s. api (sliceLast fullTranscript 2000) tpl cand = Parsed (Some es)
          \<and> (f, JString s) \<in> set es \<and> s \<noteq> [] \<and> s \<noteq> ''N/A''
          \<and> fst (parseFinalAttributes_slice api fullTranscript tpl cand) f = Some s))
   \<and> ((\<forall>es. api (sliceLast fullTranscript 2000) tpl cand = Parsed (Some es) \<longrightarrow>
          (\<forall>v. (f, v) \<in> set es \<longrightarrow> v = JString [] \<or> v = JString ''N/A'')) \<longrightarrow>
        fst (parseFinalAttributes_slice api fullTranscript tpl cand) f = cand f)"
proof -
  have changed: "mergeFinal reply cand f \<noteq> cand f \<longrightarrow>
      (\<exists>es s. reply = Parsed (Some es) \<and> (f, JString s) \<in> set es \<and> s \<noteq> [] \<and> s \<noteq> ''N/A''
          \<and> mergeFinal reply cand f = Some s)" for reply
    using mergeFinal_changed[of reply cand f] by blast
  have retained: "(\<forall>es. reply = Parsed (Some es) \<longrightarrow>
          (\<forall>v. (f, v) \<in> set es \<longrightarrow> v = JString [] \<or> v = JString ''N/A'')) \<longrightarrow>
        mergeFinal reply cand f = cand f" for reply
  proof (cases "\<exists>es. reply = Parsed (Some es)")
    case True
    then show ?thesis using mergeFinal_retained[of reply _ f cand] by blast
  next
    case False
    then show ?thesis using mergeFinal_absent[of reply _ cand] by auto
  qed
  show ?thesis
    unfolding parseFinalAttributes_def parseFinalAttributes_slice_def Let_def
    using changed retained by (simp split: if_splits)
qed

text \<open>
  The model answers \<open>"N/A"\<close> for the name and a date for the date of birth: the
  name is kept, the date of birth is overwritten.
\<close>

theorem finalSweep_merge_policy_witness:
  "fst (parseFinalAttributes (\<lambda>text tpl cand. sweepReply)
          ''The patient was born on 1 May 1990.'' []
          [''name'' \<mapsto> ''Jo'', ''dob'' \<mapsto> '''']) ''name'' = Some ''Jo''
   \<and> fst (parseFinalAttributes (\<lambda>text tpl cand. sweepReply)
          ''The patient was born on 1 May 1990.'' []
          [''name'' \<mapsto> ''Jo'', ''dob'' \<mapsto> '''']) ''dob'' = Some ''1 May 1990''"
proof
  have "\<forall>es. sweepReply = Parsed (Some es) \<longrightarrow>
          (\<forall>v. (''name'', v) \<in> set es \<longrightarrow> v = JString [] \<or> v = JString ''N/A'')"
    by (auto simp: sweepReply_def)
  with finalSweep_merge_policy[of "\<lambda>text tpl cand. sweepReply"
        "''The patient was born on 1 May 1990.''" "[]"
        "[''name'' \<mapsto> ''Jo'', ''dob'' \<mapsto> '''']" "''name''"]
  show "fst (parseFinalAttributes (\<lambda>text tpl cand. sweepReply)
          ''The patient was born on 1 May 1990.'' []
          [''name'' \<mapsto> ''Jo'', ''dob'' \<mapsto> '''']) ''name'' = Some ''Jo''"
    by simp
  show "fst (parseFinalAttributes (\<lambda>text tpl cand. sweepReply)
          ''The patient was born on 1 May 1990.'' []
          [''name'' \<mapsto> ''Jo'', ''dob'' \<mapsto> '''']) ''dob'' = Some ''1 May 1990''"
    by (simp add: parseFinalAttributes_def sweepReply_def mergeFinal_def keepValue_def
          stringOf_def setAttribute_def trim_def isSpace_def Let_def)
qed

section \<open>Cache keys collide on a common prefix\<close>

lemma toBase64_take:
  "3 * n \<le> length xs \<Longrightarrow> take (4 * n) (toBase64 xs) = toBase64 (take (3 * n) xs)"
proof (induction n arbitrary: xs)
  case 0
  then show ?case by simp
next
  case (Suc n)
  then obtain a b c rest where xs: "xs = a # b # c # rest"
    by (cases xs rule: toBase64.cases) auto
  with Suc.prems have "3 * n \<le> length rest" by simp
  from Suc.IH[OF this] show ?case by (simp add: xs take_Cons')
qed

lemma createAudioKey_prefix:
  "48 \<le> length buffer \<Longrightarrow> createAudioKey buffer = toBase64 (take 48 buffer)"
  using toBase64_take[of 16 buffer] by (simp add: createAudioKey_def)

lemma map_of_mapSet: "map_of (mapSet k v cache) k = Some v"
  by (induction cache) auto

text \<open>
  C10. Two audio buffers of at least 48 bytes that agree on their first 48 bytes get
  the same cache key from \<open>createAudioKey\<close> and from \<open>createCacheKey\<close>: the key
  is the base64 encoding of the first 48 bytes only. So a transcript cached under the
  key of one buffer is what a lookup with the key of the other returns: from the map
  behind \<open>getCachedAudio\<close>, and from the \<open>Map\<close> behind
  \<open>getCachedTranscription\<close> while the entry is younger than the time to live.
\<close>

theorem createAudioKey_collision:
  assumes "48 \<le> length b1" and "48 \<le> length b2" and "take 48 b1 = take 48 b2"
  shows "createAudioKey b1 = createAudioKey b2
       \<and> createCacheKey b1 = createCacheKey b2
       \<and> createAudioKey b1 = toBase64 (take 48 b1)
       \<and> getCachedAudio (createAudioKey b2) (cacheAudio (createAudioKey b1) t cache) = Some t
       \<and> (now' - now < TRANSCRIPTION_CACHE_TTL \<longrightarrow>
            fst (getCachedTranscription (createCacheKey b2) now'
                   (cacheTranscription (createCacheKey b1) t now tcache)) = Some t)"
proof -
  have k: "createAudioKey b1 = createAudioKey b2"
    using assms by (simp add: createAudioKey_prefix)
  then have k': "createCacheKey b1 = createCacheKey b2"
    by (simp add: createAudioKey_def createCacheKey_def)
  have "map_of (cacheTranscription (createCacheKey b1) t now tcache) (createCacheKey b2)
          = Some (t, now)"
    unfolding cacheTranscription_def Let_def k' by (rule map_of_mapSet)
  then have "now' - now < TRANSCRIPTION_CACHE_TTL \<longrightarrow>
            fst (getCachedTranscription (createCacheKey b2) now'
                   (cacheTranscription (createCacheKey b1) t now tcache)) = Some t"
    by (simp add: getCachedTranscription_def)
  with k k' assms(1) show ?thesis
    by (simp add: createAudioKey_prefix getCachedAudio_def cacheAudio_def)
qed

text \<open>Two buffers of 49 bytes that differ in their last byte.\<close>

theorem createAudioKey_collision_witness:
  "48 \<le> length (replicate 48 (0::byte) @ [1]) \<and> 48 \<le> length (replicate 48 (0::byte) @ [2])
   \<and> take 48 (replicate 48 (0::byte) @ [1]) = take 48 (replicate 48 0 @ [2])
   \<and> replicate 48 (0::byte) @ [1] \<noteq> replicate 48 0 @ [2]
   \<and> createAudioKey (replicate 48 0 @ [1]) = createAudioKey (replicate 48 0 @ [2])
   \<and> getCachedAudio (createAudioKey (replicate 48 0 @ [2]))
        (cacheAudio (createAudioKey (replicate 48 0 @ [1])) ''hello'' Map.empty) = Some ''hello''
   \<and> fst (getCachedTranscription (createCacheKey (replicate 48 0 @ [2])) 1000
            (cacheTranscription (createCacheKey (replicate 48 0 @ [1])) ''hello'' 0 []))
       = Some ''hello''"
proof -
  have h1: "48 \<le> length (replicate 48 (0::byte) @ [1])" by simp
  have h2: "48 \<le> length (replicate 48 (0::byte) @ [2])" by simp
  have h3: "take 48 (replicate 48 (0::byte) @ [1]) = take 48 (replicate 48 0 @ [2])" by simp
  have ne: "replicate 48 (0::byte) @ [1] \<noteq> replicate 48 0 @ [2]" by simp
  have ttl: "(1000::int) - 0 < TRANSCRIPTION_CACHE_TTL" by (simp add: TRANSCRIPTION_CACHE_TTL_def)
  note c = createAudioKey_collision[OF h1 h2 h3, of "''hello''" Map.empty 1000 0 "[]"]
  have k: "createAudioKey (replicate 48 0 @ [1]) = createAudioKey (replicate 48 0 @ [2])"
    by (rule c[THEN conjunct1])
  have g: "getCachedAudio (createAudioKey (replicate 48 0 @ [2]))
        (cacheAudio (createAudioKey (replicate 48 0 @ [1])) ''hello'' Map.empty) = Some ''hello''"
    by (rule c[THEN conjunct2, THEN conjunct2, THEN conjunct2, THEN conjunct1])
  have t: "fst (getCachedTranscription (createCacheKey (replicate 48 0 @ [2])) 1000
            (cacheTranscription (createCacheKey (replicate 48 0 @ [1])) ''hello'' 0 []))
       = Some ''hello''"
    by (rule mp[OF c[THEN conjunct2, THEN conjunct2, THEN conjunct2, THEN conjunct2] ttl])
  show ?thesis by (intro conjI h1 h2 h3 ne k g t)
qed

section \<open>The template is set once\<close>

lemma reached_simps [simp]: "reached (Inl s) = s" "reached (Inr s) = s"
  by (simp_all add: reached_def)

lemma toString_js_String_js: "toString_js v = Some name \<Longrightarrow> String_js v = Some name"
  by (cases v) (simp_all add: toString_js_def String_js_def)

text \<open>The inner loop: what it leaves alone, and what it keeps, whether it throws or not.\<close>

lemma pushFields_other:
  "nchunks (reached (pushFields conv b vs s)) = nchunks s
   \<and> audioBuffer (reached (pushFields conv b vs s)) = audioBuffer s
   \<and> transcript (reached (pushFields conv b vs s)) = transcript s
   \<and> webmHeader (reached (pushFields conv b vs s)) = webmHeader s
   \<and> currTranscriptSize (reached (pushFields conv b vs s)) = currTranscriptSize s"
  by (induction vs arbitrary: s) (auto split: option.splits)

lemma pushFields_blank:
  "attributesBlank s \<Longrightarrow> attributesBlank (reached (pushFields conv b vs s))"
proof (induction vs arbitrary: s)
  case Nil
  then show ?case by simp
next
  case (Cons v vs)
  show ?case
  proof (cases "conv v")
    case None
    then show ?thesis using Cons.prems by simp
  next
    case (Some name)
    have "attributesBlank
            (s\<lparr> template := template s @ [\<lparr> block_name = b, field_name = name \<rparr>],
                currAttributes := setAttribute (currAttributes s) name [] \<rparr>)"
      using Cons.prems by (auto simp: attributesBlank_def setAttribute_def)
    from Cons.IH[OF this] Some show ?thesis by simp
  qed
qed

lemma pushFields_proto:
  "currAttributes s ''__proto__'' = None
   \<Longrightarrow> currAttributes (reached (pushFields conv b vs s)) ''__proto__'' = None"
proof (induction vs arbitrary: s)
  case Nil
  then show ?case by simp
next
  case (Cons v vs)
  show ?case
  proof (cases "conv v")
    case None
    then show ?thesis using Cons.prems by simp
  next
    case (Some name)
    have "currAttributes
            (s\<lparr> template := template s @ [\<lparr> block_name = b, field_name = name \<rparr>],
                currAttributes := setAttribute (currAttributes s) name [] \<rparr>) ''__proto__'' = None"
      using Cons.prems by (simp add: setAttribute_def)
    from Cons.IH[OF this] Some show ?thesis by simp
  qed
qed

text \<open>When every element converts the inner loop does not throw, and pushes them all.\<close>

lemma pushFields_Inr:
  "list_all (\<lambda>v. conv v \<noteq> None) vs
   \<Longrightarrow> pushFields conv b vs s = Inr (reached (pushFields conv b vs s))"
  by (induction vs arbitrary: s) (auto split: option.splits)

lemma pushFields_template:
  "list_all (\<lambda>v. conv v \<noteq> None) vs
   \<Longrightarrow> template (reached (pushFields conv b vs s))
       = template s
         @ map (\<lambda>name. \<lparr> block_name = b, field_name = name \<rparr>) (List.map_filter conv vs)"
  by (induction vs arbitrary: s) (auto simp: List.map_filter_simps split: option.splits)

lemma pushFields_toString:
  "list_all (\<lambda>v. toString_js v \<noteq> None) vs
   \<Longrightarrow> pushFields toString_js b vs s = pushFields String_js b vs s"
  by (induction vs arbitrary: s) (auto simp: toString_js_String_js split: option.splits)

text \<open>Induction over the entries of the blocks.\<close>

lemma blocks_induct:
  fixes blocks :: "(jsstring \<times> block) list"
  assumes "P []"
    and "\<And>temp_block rest. P rest \<Longrightarrow> P ((temp_block, NotArray) # rest)"
    and "\<And>temp_block vs rest. P rest \<Longrightarrow> P ((temp_block, Fields vs) # rest)"
  shows "P blocks"
proof (induction blocks)
  case Nil
  show ?case by (rule assms(1))
next
  case (Cons e rest)
  obtain temp_block b where e: "e = (temp_block, b)" by (cases e)
  show ?case
    unfolding e using Cons assms(2,3) by (cases b) simp_all
qed

text \<open>The same for the outer loop of the handler that acknowledges.\<close>

lemma pushBlocks_other:
  "nchunks (reached (pushBlocks blocks s)) = nchunks s
   \<and> audioBuffer (reached (pushBlocks blocks s)) = audioBuffer s
   \<and> transcript (reached (pushBlocks blocks s)) = transcript s
   \<and> webmHeader (reached (pushBlocks blocks s)) = webmHeader s
   \<and> currTranscriptSize (reached (pushBlocks blocks s)) = currTranscriptSize s"
proof (induction blocks arbitrary: s rule: blocks_induct)
  case 1
  show ?case by simp
next
  case (2 temp_block rest)
  then show ?case by simp
next
  case (3 temp_block vs rest)
  show ?case
  proof (cases "pushFields String_js temp_block vs s")
    case (Inl s')
    with pushFields_other[of String_js temp_block vs s] show ?thesis by simp
  next
    case (Inr s')
    with pushFields_other[of String_js temp_block vs s] 3[of s'] show ?thesis by simp
  qed
qed

lemma pushBlocks_blank:
  "attributesBlank s \<Longrightarrow> attributesBlank (reached (pushBlocks blocks s))"
proof (induction blocks arbitrary: s rule: blocks_induct)
  case 1
  then show ?case by simp
next
  case (2 temp_block rest)
  then show ?case by simp
next
  case (3 temp_block vs rest)
  note b = pushFields_blank[OF "3.prems", of String_js temp_block vs]
  show ?case
  proof (cases "pushFields String_js temp_block vs s")
    case (Inl s')
    with b show ?thesis by simp
  next
    case (Inr s')
    with b have "attributesBlank s'" by simp
    from "3.IH"[OF this] Inr show ?thesis by simp
  qed
qed

lemma pushBlocks_proto:
  "currAttributes s ''__proto__'' = None
   \<Longrightarrow> currAttributes (reached (pushBlocks blocks s)) ''__proto__'' = None"
proof (induction blocks arbitrary: s rule: blocks_induct)
  case 1
  then show ?case by simp
next
  case (2 temp_block rest)
  then show ?case by simp
next
  case (3 temp_block vs rest)
  note b = pushFields_proto[OF "3.prems", of String_js temp_block vs]
  show ?case
  proof (cases "pushFields String_js temp_block vs s")
    case (Inl s')
    with b show ?thesis by simp
  next
    case (Inr s')
    with b have "currAttributes s' ''__proto__'' = None" by simp
    from "3.IH"[OF this] Inr show ?thesis by simp
  qed
qed

lemma pushBlocks_Inr:
  "fieldsConvert String_js blocks
   \<Longrightarrow> pushBlocks blocks s = Inr (reached (pushBlocks blocks s))"
proof (induction blocks arbitrary: s rule: blocks_induct)
  case 1
  show ?case by simp
next
  case (2 temp_block rest)
  then show ?case by simp
next
  case (3 temp_block vs rest)
  from "3.prems" have a: "list_all (\<lambda>v. String_js v \<noteq> None) vs"
    and r: "fieldsConvert String_js rest" by simp_all
  from pushFields_Inr[OF a, of temp_block s] "3.IH"[OF r] show ?case
    by (cases "pushFields String_js temp_block vs s") simp_all
qed

lemma pushBlocks_template:
  "fieldsConvert String_js blocks
   \<Longrightarrow> template (reached (pushBlocks blocks s)) = template s @ startFields String_js blocks"
proof (induction blocks arbitrary: s rule: blocks_induct)
  case 1
  show ?case by simp
next
  case (2 temp_block rest)
  then show ?case by simp
next
  case (3 temp_block vs rest)
  from "3.prems" have a: "list_all (\<lambda>v. String_js v \<noteq> None) vs"
    and r: "fieldsConvert String_js rest" by simp_all
  from pushFields_Inr[OF a, of temp_block s] pushFields_template[OF a, of temp_block s]
    "3.IH"[OF r]
  show ?case
    by (cases "pushFields String_js temp_block vs s") simp_all
qed

text \<open>
  The loop of the silent handler does what the other loop does when every block is
  an array and every element has a \<open>toString\<close> that returns.
\<close>

lemma fieldsConvert_toString:
  "fieldsConvert toString_js blocks \<Longrightarrow> fieldsConvert String_js blocks"
proof (induction blocks rule: blocks_induct)
  case 1
  show ?case by simp
next
  case (2 temp_block rest)
  then show ?case by simp
next
  case (3 temp_block vs rest)
  from "3.prems" have "list_all (\<lambda>v. toString_js v \<noteq> None) vs" by simp
  then have "list_all (\<lambda>v. String_js v \<noteq> None) vs"
    by (auto simp: list_all_iff dest: toString_js_String_js)
  with 3 show ?case by simp
qed

lemma pushBlocks_strict_arrays:
  "\<forall>e \<in> set blocks. snd e \<noteq> NotArray \<Longrightarrow> fieldsConvert toString_js blocks
   \<Longrightarrow> pushBlocks_strict blocks s = pushBlocks blocks s"
proof (induction blocks arbitrary: s rule: blocks_induct)
  case 1
  show ?case by simp
next
  case (2 temp_block rest)
  then show ?case by simp
next
  case (3 temp_block vs rest)
  from "3.prems" have a: "list_all (\<lambda>v. toString_js v \<noteq> None) vs"
    and r: "fieldsConvert toString_js rest" and n: "\<forall>e \<in> set rest. snd e \<noteq> NotArray"
    by simp_all
  from pushFields_toString[OF a, of temp_block s] "3.IH"[OF n r] show ?case
    by (cases "pushFields String_js temp_block vs s") simp_all
qed

text \<open>
  No handler but the start handler touches the template, and that one only while the
  template is empty.
\<close>

lemma binaryFrame_template:
  "p \<in> set (fst (binaryFrame s chunk)) \<Longrightarrow> template p = template s"
  by (auto simp: binaryFrame_def Let_def captureHeader_def appendChunk_def prependHeader_def
        resetCapture_def split: if_splits option.splits)

lemma handleBinary_template: "template (fst (handleBinary s chunk)) = template s"
proof (cases "fst (binaryFrame s chunk) = []")
  case True
  then show ?thesis by (simp add: handleBinary_def)
next
  case False
  then have "last (s # fst (binaryFrame s chunk)) \<in> set (fst (binaryFrame s chunk))"
    by simp
  then show ?thesis by (simp add: handleBinary_def binaryFrame_template del: last.simps)
qed

lemma transcribeResidual_template:
  "transcribeResidual env s b = (Inr s', ev) \<Longrightarrow> template s' = template s"
  by (auto simp: transcribeResidual_def split: if_splits prod.splits sum.splits)

lemma handleStop_template: "template (fst (handleStop env s)) = template s"
  by (auto simp: handleStop_def Let_def split: prod.splits sum.splits
        dest: transcribeResidual_template)

lemma transcriptionJob_template: "template (fst (transcriptionJob env s b)) = template s"
  by (auto simp: transcriptionJob_def Let_def split: prod.splits sum.splits)

lemma handleStart_fst:
  "fst (handleStart s blocks) = (if template s = [] then reached (pushBlocks blocks s) else s)"
  by (simp add: handleStart_def split: sum.splits)

lemma handleStart_initialised:
  "template s \<noteq> [] \<Longrightarrow> handleStart s blocks = (s, [Sent (Started (length (template s)))])"
  by (simp add: handleStart_def)

lemma sessionStep_template:
  "template s \<noteq> [] \<Longrightarrow> template (fst (sessionStep env s st)) = template s"
  by (auto simp: sessionStep_def onMessage_def handleStart_initialised handleBinary_template
        handleStop_template transcriptionJob_template split: step.splits message.splits)

lemma session_fst_Cons:
  "fst (session env s (st # rest)) = fst (session env (fst (sessionStep env s st)) rest)"
  by (simp add: Let_def case_prod_beta)

lemma session_template:
  "template s \<noteq> [] \<Longrightarrow> template (fst (session env s steps)) = template s"
proof (induction steps arbitrary: s)
  case Nil
  then show ?case by simp
next
  case (Cons st steps)
  have t: "template (fst (sessionStep env s st)) = template s"
    using Cons.prems by (rule sessionStep_template)
  with Cons.prems have "template (fst (sessionStep env s st)) \<noteq> []" by simp
  from Cons.IH[OF this] t show ?case
    by (simp only: session_fst_Cons)
qed

text \<open>
  When a conversion throws, the handler that acknowledges answers
  \<open>bad-start-payload\<close> and the fields pushed before the throw stay in the template:
  here the field \<open>name\<close>, so that a later start message is answered with the size 1
  and fills nothing. The silent handler throws on a \<open>null\<close> element, which the other
  one names \<open>null\<close>.
\<close>

lemma handleStart_bad_payload:
  "snd (handleStart initialState [(''id'', Fields [Printable ''name'', Unprintable])])
     = [Sent (ErrorOnly ''bad-start-payload'')]
   \<and> template (fst (handleStart initialState [(''id'', Fields [Printable ''name'', Unprintable])]))
       = [\<lparr> block_name = ''id'', field_name = ''name'' \<rparr>]
   \<and> snd (session offlineServices initialState
             [Message (Start [(''id'', Fields [Printable ''name'', Unprintable])]),
              Message (Start idBlocks)])
       = [Sent (ErrorOnly ''bad-start-payload''), Sent (Started 1)]"
  by (simp add: handleStart_def initialState_def String_js_def setAttribute_def idBlocks_def
        sessionStep_def onMessage_def)

lemma handleStart_null_field:
  "handleStart initialState [(''id'', Fields [NullField])]
     = (initialState\<lparr> template := [\<lparr> block_name = ''id'', field_name = ''null'' \<rparr>],
                      currAttributes := (currAttributes initialState)(''null'' \<mapsto> []) \<rparr>,
        [Sent (Started 1)])
   \<and> handleStart_silent initialState (Some [(''id'', Fields [NullField])])
       = (Inl initialState, [])"
  by (simp add: handleStart_def handleStart_silent_def initialState_def String_js_def
        toString_js_def setAttribute_def)

text \<open>
  A field named \<open>__proto__\<close> enters the template, but the assignment of its attribute
  stores nothing.
\<close>

lemma handleStart_proto_field:
  "template (fst (handleStart initialState [(''id'', Fields [Printable ''__proto__''])]))
     = [\<lparr> block_name = ''id'', field_name = ''__proto__'' \<rparr>]
   \<and> currAttributes (fst (handleStart initialState [(''id'', Fields [Printable ''__proto__''])]))
       ''__proto__'' = None"
  by (simp add: handleStart_def initialState_def String_js_def setAttribute_def)

text \<open>
  A first start message whose only block is an empty array is acknowledged with the
  size 0 and leaves the template empty, so the start message after it fills the
  template: the size goes from 0 to 2.
\<close>

theorem start_without_field_leaves_template_open:
  "snd (session offlineServices initialState
          [Message (Start [(''id'', Fields [])]), Message (Start idBlocks)])
     = [Sent (Started 0), Sent (Started 2)]
   \<and> template (fst (session offlineServices initialState [Message (Start [(''id'', Fields [])])]))
       = []
   \<and> template (fst (session offlineServices initialState
                      [Message (Start [(''id'', Fields [])]), Message (Start idBlocks)]))
       = [\<lparr> block_name = ''id'', field_name = ''name'' \<rparr>,
          \<lparr> block_name = ''id'', field_name = ''dob'' \<rparr>]"
  by (simp add: handleStart_def initialState_def String_js_def setAttribute_def idBlocks_def
        sessionStep_def onMessage_def)

text \<open>
  C4. The template is set at most once per session, by the first start message that
  yields a field. Take a start message that arrives while the template is empty,
  whose elements all convert to strings and whose blocks hold at least one element
  in an array. It makes the template the list of those fields and gives every one of
  them the empty string as its attribute (a field named \<open>__proto__\<close> is left out of
  this statement); the handler that acknowledges answers with the size. Whatever the session does afterwards (messages and jobs,
  \<open>later\<close>), the template stays that list, and any later start message, whatever its
  blocks, leaves the whole state, template and attributes included, as it is and
  produces no error: the handler that acknowledges answers with the unchanged size,
  the silent one with nothing. The silent handler fills the template as the other
  does when every block is an array and every element has a \<open>toString\<close> that returns.
\<close>

theorem template_set_once:
  assumes "template s = []" and "fieldsConvert String_js blocks"
    and "startFields String_js blocks \<noteq> []"
  shows "template (fst (handleStart s blocks)) = startFields String_js blocks
       \<and> (\<forall>d \<in> set (startFields String_js blocks).
            field_name d \<noteq> ''__proto__'' \<longrightarrow>
            currAttributes (fst (handleStart s blocks)) (field_name d) = Some [])
       \<and> snd (handleStart s blocks) = [Sent (Started (length (startFields String_js blocks)))]
       \<and> template (fst (session env (fst (handleStart s blocks)) later))
           = startFields String_js blocks
       \<and> handleStart (fst (session env (fst (handleStart s blocks)) later)) blocks'
           = (fst (session env (fst (handleStart s blocks)) later),
              [Sent (Started (length (startFields String_js blocks)))])
       \<and> ((\<forall>e \<in> set blocks. snd e \<noteq> NotArray) \<and> fieldsConvert toString_js blocks \<longrightarrow>
            handleStart_silent s (Some blocks) = (Inr (fst (handleStart s blocks)), []))
       \<and> handleStart_silent (fst (session env (fst (handleStart s blocks)) later)) blocks''
           = (Inr (fst (session env (fst (handleStart s blocks)) later)), [])"
proof -
  define s1 where "s1 = fst (handleStart s blocks)"
  have s1: "s1 = reached (pushBlocks blocks s)"
    using assms(1) by (simp add: s1_def handleStart_fst)
  have run: "pushBlocks blocks s = Inr s1"
    unfolding s1 by (rule pushBlocks_Inr[OF assms(2)])
  have t1: "template s1 = startFields String_js blocks"
    using assms(1) pushBlocks_template[OF assms(2), of s] by (simp add: s1)
  have "attributesBlank s"
    using assms(1) by (simp add: attributesBlank_def)
  then have "attributesBlank s1"
    unfolding s1 by (rule pushBlocks_blank)
  then have blank: "\<forall>d \<in> set (startFields String_js blocks).
      field_name d \<noteq> ''__proto__'' \<longrightarrow> currAttributes s1 (field_name d) = Some []"
    by (simp add: attributesBlank_def t1)
  have ack: "snd (handleStart s blocks) = [Sent (Started (length (startFields String_js blocks)))]"
    using assms(1) run t1 by (simp add: handleStart_def)
  define s2 where "s2 = fst (session env s1 later)"
  have ne: "template s1 \<noteq> []"
    using assms(3) t1 by simp
  have t2: "template s2 = startFields String_js blocks"
    unfolding s2_def using session_template[OF ne] t1 by simp
  then have ne2: "template s2 \<noteq> []"
    using assms(3) by simp
  have again: "handleStart s2 blocks'
      = (s2, [Sent (Started (length (startFields String_js blocks)))])"
    using handleStart_initialised[OF ne2] t2 by simp
  have silent1: "(\<forall>e \<in> set blocks. snd e \<noteq> NotArray) \<and> fieldsConvert toString_js blocks \<longrightarrow>
            handleStart_silent s (Some blocks) = (Inr s1, [])"
    using assms(1) run by (simp add: handleStart_silent_def pushBlocks_strict_arrays)
  have silent2: "handleStart_silent s2 blocks'' = (Inr s2, [])"
    using ne2 by (simp add: handleStart_silent_def)
  from t1 blank ack t2 again silent1 silent2 show ?thesis
    unfolding s1_def s2_def by blast
qed

text \<open>
  A start message with the block \<open>id\<close> of two fields, then a binary frame, a second
  start message with another block, one of whose elements does not convert, and a
  stop message: the template is still the two fields of the first message, and a
  further start message is answered with 2.
\<close>

theorem template_set_once_witness:
  "template initialState = [] \<and> fieldsConvert String_js idBlocks
   \<and> startFields String_js idBlocks \<noteq> []
   \<and> template (fst (handleStart initialState idBlocks))
       = [\<lparr> block_name = ''id'', field_name = ''name'' \<rparr>,
          \<lparr> block_name = ''id'', field_name = ''dob'' \<rparr>]
   \<and> currAttributes (fst (handleStart initialState idBlocks)) ''name'' = Some []
   \<and> template (fst (session offlineServices (fst (handleStart initialState idBlocks))
                      [Message (Binary [0]),
                       Message (Start [(''visit'', Fields [Printable ''reason'', Unprintable])]),
                       Message Stop]))
       = [\<lparr> block_name = ''id'', field_name = ''name'' \<rparr>,
          \<lparr> block_name = ''id'', field_name = ''dob'' \<rparr>]
   \<and> snd (handleStart
            (fst (session offlineServices (fst (handleStart initialState idBlocks))
                    [Message (Binary [0]),
                     Message (Start [(''visit'', Fields [Printable ''reason'', Unprintable])]),
                     Message Stop]))
            [(''visit'', Fields [Printable ''reason'']), (''x'', NotArray)])
       = [Sent (Started 2)]
   \<and> handleStart_silent initialState (Some idBlocks)
       = (Inr (fst (handleStart initialState idBlocks)), [])"
proof -
  have h1: "template initialState = []" by (simp add: initialState_def)
  have h2: "fieldsConvert String_js idBlocks" by (simp add: idBlocks_def String_js_def)
  have f: "startFields String_js idBlocks
       = [\<lparr> block_name = ''id'', field_name = ''name'' \<rparr>,
          \<lparr> block_name = ''id'', field_name = ''dob'' \<rparr>]"
    by (simp add: idBlocks_def String_js_def List.map_filter_simps)
  have h3: "startFields String_js idBlocks \<noteq> []" by (simp add: f)
  have h4: "(\<forall>e \<in> set idBlocks. snd e \<noteq> NotArray) \<and> fieldsConvert toString_js idBlocks"
    by (simp add: idBlocks_def toString_js_def)
  note c = template_set_once[OF h1 h2 h3, of offlineServices
      "[Message (Binary [0]),
        Message (Start [(''visit'', Fields [Printable ''reason'', Unprintable])]), Message Stop]"
      "[(''visit'', Fields [Printable ''reason'']), (''x'', NotArray)]" None]
  from c h1 h2 h3 h4 show ?thesis
    by (simp add: f)
qed

section \<open>The size of the audio buffer\<close>

lemma binaryFrame_overflow:
  "length (audioBuffer s) + length chunk > MAX_AUDIO_BUFFER_SIZE \<Longrightarrow>
   binaryFrame s chunk = ([], [Sent (ErrorOnly ''audio-buffer-overflow'')])"
  by (simp add: binaryFrame_def)

lemma handleBinary_overflow:
  "length (audioBuffer s) + length chunk > MAX_AUDIO_BUFFER_SIZE \<Longrightarrow>
   handleBinary s chunk = (s, [Sent (ErrorOnly ''audio-buffer-overflow'')])"
  by (simp add: handleBinary_def binaryFrame_overflow)

text \<open>
  A frame keeps the buffer and the header within the limit; on its way the buffer is
  at most the limit plus the header.
\<close>

lemma binaryFrame_points:
  "bufferBounded s \<Longrightarrow> p \<in> set (fst (binaryFrame s chunk)) \<Longrightarrow>
   length (audioBuffer p)
     \<le> MAX_AUDIO_BUFFER_SIZE + (case webmHeader p of None \<Rightarrow> 0 | Some header \<Rightarrow> length header)
   \<and> (case webmHeader p of None \<Rightarrow> True | Some header \<Rightarrow> length header \<le> MAX_AUDIO_BUFFER_SIZE)"
  by (auto simp: bufferBounded_def binaryFrame_def Let_def captureHeader_def appendChunk_def
        prependHeader_def resetCapture_def split: if_splits option.splits)

lemma handleBinary_bounded:
  "bufferBounded s \<Longrightarrow> bufferBounded (fst (handleBinary s chunk))"
  by (auto simp: bufferBounded_def handleBinary_def binaryFrame_def Let_def captureHeader_def
        appendChunk_def prependHeader_def resetCapture_def split: if_splits option.splits)

lemma transcribeResidual_buffer:
  "transcribeResidual env s b = (Inr s', ev) \<Longrightarrow>
   audioBuffer s' = audioBuffer s \<and> webmHeader s' = webmHeader s \<and> nchunks s' = nchunks s"
  by (auto simp: transcribeResidual_def split: if_splits prod.splits sum.splits)

lemma handleStop_bounded:
  "bufferBounded s \<Longrightarrow> bufferBounded (fst (handleStop env s))"
  by (auto simp: bufferBounded_def handleStop_def Let_def split: prod.splits sum.splits
        dest!: transcribeResidual_buffer)

lemma transcriptionJob_buffer:
  "audioBuffer (fst (transcriptionJob env s b)) = audioBuffer s
   \<and> webmHeader (fst (transcriptionJob env s b)) = webmHeader s"
  by (auto simp: transcriptionJob_def Let_def split: prod.splits sum.splits)

lemma handleStart_buffer:
  "audioBuffer (fst (handleStart s blocks)) = audioBuffer s
   \<and> webmHeader (fst (handleStart s blocks)) = webmHeader s"
  by (simp add: handleStart_fst pushBlocks_other)

lemma sessionStep_bounded:
  "bufferBounded s \<Longrightarrow> bufferBounded (fst (sessionStep env s st))"
proof (cases st)
  case (Message m)
  assume b: "bufferBounded s"
  show ?thesis
  proof (cases m)
    case (Start blocks)
    with b Message show ?thesis
      by (simp add: sessionStep_def onMessage_def bufferBounded_def handleStart_buffer)
  next
    case Stop
    with b Message show ?thesis
      by (simp add: sessionStep_def onMessage_def handleStop_bounded)
  next
    case (Binary chunk)
    with b Message show ?thesis
      by (simp add: sessionStep_def onMessage_def handleBinary_bounded)
  qed (use b Message in \<open>simp_all add: sessionStep_def onMessage_def\<close>)
next
  case (RunJob b)
  assume "bufferBounded s"
  with RunJob show ?thesis
    by (simp add: sessionStep_def bufferBounded_def transcriptionJob_buffer)
qed

lemma session_bounded:
  "bufferBounded s \<Longrightarrow> bufferBounded (fst (session env s steps))"
proof (induction steps arbitrary: s)
  case Nil
  then show ?case by simp
next
  case (Cons st steps)
  from Cons.IH[OF sessionStep_bounded[OF Cons.prems]] show ?case
    by (simp only: session_fst_Cons)
qed

lemma stepPoints_bounded:
  assumes "bufferBounded s" and "p \<in> set (stepPoints env s st)"
  shows "length (audioBuffer p)
     \<le> MAX_AUDIO_BUFFER_SIZE + (case webmHeader p of None \<Rightarrow> 0 | Some header \<Rightarrow> length header)
   \<and> (case webmHeader p of None \<Rightarrow> True | Some header \<Rightarrow> length header \<le> MAX_AUDIO_BUFFER_SIZE)"
proof (cases "\<exists>chunk. st = Message (Binary chunk)")
  case True
  then obtain chunk where "st = Message (Binary chunk)" by blast
  with assms show ?thesis
    using binaryFrame_points[of s p chunk] by (simp add: stepPoints_def)
next
  case False
  then have "stepPoints env s st = [fst (sessionStep env s st)]"
    by (auto simp: stepPoints_def split: step.splits message.splits)
  with assms(2) have "p = fst (sessionStep env s st)" by simp
  with sessionStep_bounded[OF assms(1), of env st] show ?thesis
    by (auto simp: bufferBounded_def split: option.splits)
qed

lemma sessionPoints_bounded:
  "bufferBounded s \<Longrightarrow> p \<in> set (sessionPoints env s steps) \<Longrightarrow>
   length (audioBuffer p)
     \<le> MAX_AUDIO_BUFFER_SIZE + (case webmHeader p of None \<Rightarrow> 0 | Some header \<Rightarrow> length header)
   \<and> (case webmHeader p of None \<Rightarrow> True | Some header \<Rightarrow> length header \<le> MAX_AUDIO_BUFFER_SIZE)"
proof (induction steps arbitrary: s)
  case Nil
  then show ?case by simp
next
  case (Cons st steps)
  from Cons.prems(2) consider "p \<in> set (stepPoints env s st)"
    | "p \<in> set (sessionPoints env (fst (sessionStep env s st)) steps)"
    by auto
  then show ?case
  proof cases
    case 1
    with Cons.prems(1) show ?thesis by (rule stepPoints_bounded)
  next
    case 2
    from Cons.IH[OF sessionStep_bounded[OF Cons.prems(1)] 2] show ?thesis .
  qed
qed

lemma initialState_bounded: "bufferBounded initialState"
  by (simp add: bufferBounded_def initialState_def)

subsection \<open>A session that puts the header in front of a full buffer\<close>

lemma length_voicedAudio: "length voicedAudio = 1000"
  by (simp add: voicedAudio_def)

lemma checkWebMIntegrity_voicedAudio: "\<not> checkWebMIntegrity (voicedAudio @ rest)"
  by (simp add: voicedAudio_def checkWebMIntegrity_def readUInt32BE_def nth_append)

lemma checkWebMIntegrity_webmMagic: "checkWebMIntegrity webmMagic"
  by (simp add: webmMagic_def checkWebMIntegrity_def readUInt32BE_def)

lemma checkWebMIntegrity_short: "length data < 4 \<Longrightarrow> \<not> checkWebMIntegrity data"
  by (simp add: checkWebMIntegrity_def)

lemma length_webmMagic: "length webmMagic = 4"
  by (simp add: webmMagic_def)

lemma initialState_capturing: "initialState = capturing 0 [] None"
  by (simp add: initialState_def capturing_def)

lemma capturing_sel:
  "audioBuffer (capturing n buf header) = buf" "webmHeader (capturing n buf header) = header"
  by (simp_all add: capturing_def)

lemma capturing_plain:
  assumes "length buf + length chunk \<le> MAX_AUDIO_BUFFER_SIZE" and "Suc n < MIN_CHUNK_NUM"
    and "header \<noteq> None \<or> \<not> checkWebMIntegrity chunk"
  shows "binaryFrame (capturing n buf header) chunk
           = ([capturing n buf header, capturing (Suc n) (buf @ chunk) header], [])"
  using assms
  by (auto simp: binaryFrame_def capturing_def captureHeader_def appendChunk_def Let_def)

lemma capturing_header:
  assumes "length buf + length chunk \<le> MAX_AUDIO_BUFFER_SIZE" and "Suc n < MIN_CHUNK_NUM"
    and "checkWebMIntegrity chunk"
  shows "binaryFrame (capturing n buf None) chunk
           = ([capturing n buf (Some chunk), capturing (Suc n) (buf @ chunk) (Some chunk)], [])"
  using assms
  by (auto simp: binaryFrame_def capturing_def captureHeader_def appendChunk_def Let_def)

lemma capturing_cutover:
  assumes "length buf + length chunk \<le> MAX_AUDIO_BUFFER_SIZE" and "MIN_CHUNK_NUM \<le> Suc n"
    and "hasVoiceActivity (buf @ chunk)" and "\<not> checkWebMIntegrity (buf @ chunk)"
  shows "binaryFrame (capturing n buf (Some header)) chunk
           = ([capturing n buf (Some header), capturing (Suc n) (buf @ chunk) (Some header),
               capturing (Suc n) (header @ buf @ chunk) (Some header),
               capturing 0 [] (Some header)],
              [Queued (header @ buf @ chunk)])"
  using assms
  by (auto simp: binaryFrame_def capturing_def captureHeader_def appendChunk_def Let_def
        prependHeader_def resetCapture_def)

lemma sessionPoints_binary:
  "sessionPoints env s (Message (Binary chunk) # rest)
     = fst (binaryFrame s chunk)
       @ sessionPoints env (last (s # fst (binaryFrame s chunk))) rest"
  by (simp add: stepPoints_def sessionStep_def onMessage_def handleBinary_def)

lemma session_binary:
  "session env s (Message (Binary chunk) # rest)
     = (fst (session env (last (s # fst (binaryFrame s chunk))) rest),
        snd (binaryFrame s chunk)
          @ snd (session env (last (s # fst (binaryFrame s chunk))) rest))"
  by (simp add: sessionStep_def onMessage_def handleBinary_def Let_def case_prod_beta)

lemmas headerLate_eval =
  headerLate_def initialState_capturing sessionPoints_binary session_binary
  capturing_plain capturing_header capturing_cutover
  MAX_AUDIO_BUFFER_SIZE_def MIN_CHUNK_NUM_def length_voicedAudio length_webmMagic
  checkWebMIntegrity_voicedAudio checkWebMIntegrity_webmMagic checkWebMIntegrity_short
  hasVoiceActivity_voicedAudio

lemma headerLate_point:
  "audioBuffer (sessionPoints env initialState headerLate ! 16)
     = webmMagic @ voicedAudio @ replicate 5241870 0 @ webmMagic @ [0, 0, 0, 0, 0, 0]
   \<and> webmHeader (sessionPoints env initialState headerLate ! 16) = Some webmMagic
   \<and> 16 < length (sessionPoints env initialState headerLate)"
  by (simp add: headerLate_eval capturing_sel del: session.simps(2) sessionPoints.simps(2))

lemma headerLate_events:
  "snd (session env initialState headerLate)
     = [Queued (webmMagic @ voicedAudio @ replicate 5241870 0 @ webmMagic @ [0, 0, 0, 0, 0, 0])]"
  by (simp add: headerLate_eval del: session.simps(2) sessionPoints.simps(2))

lemma fullBuffer_reached:
  "fst (session env initialState [Message (Binary (replicate 5242880 0))]) = fullBuffer"
proof -
  have "\<not> checkWebMIntegrity (replicate 5242880 0)"
    by (simp add: checkWebMIntegrity_def readUInt32BE_def)
  then show ?thesis
    by (simp add: fullBuffer_def initialState_capturing session_binary capturing_plain
          MAX_AUDIO_BUFFER_SIZE_def MIN_CHUNK_NUM_def del: session.simps(2))
qed

text \<open>
  C3, as stated, fails in its last part: the buffer does exceed the limit at a point
  of a session. After the eight frames of \<open>headerLate\<close> the buffer holds exactly
  5242880 bytes and does not start with the magic number, so the cut-over puts the
  stored header in front: the seventeenth state the session passes through has an
  \<open>audioBuffer\<close> of 5242884 bytes, and that buffer is the snapshot queued for the
  job.
\<close>

theorem audioBuffer_exceeds_limit_at_cutover:
  "MAX_AUDIO_BUFFER_SIZE = 5242880
   \<and> length (audioBuffer (sessionPoints offlineServices initialState headerLate ! 16)) = 5242884
   \<and> snd (session offlineServices initialState headerLate)
       = [Queued (audioBuffer (sessionPoints offlineServices initialState headerLate ! 16))]"
  by (simp add: headerLate_point headerLate_events MAX_AUDIO_BUFFER_SIZE_def
        length_voicedAudio length_webmMagic)

text \<open>
  C3, amended. A binary chunk that would make the buffer exceed the limit is dropped:
  the state is unchanged, the only event is one \<open>audio-buffer-overflow\<close> error,
  and no job is queued. Consequently the buffer is within the limit whenever a
  message or a job has been handled, at every point of a session. Inside the handling
  of a frame it is at most the limit plus the length of the stored header (itself
  within the limit): the cut-over puts the header in front of a buffer that lacks the
  magic number before it takes the snapshot.
\<close>

theorem audioBuffer_overflow_and_bound:
  "(length (audioBuffer s) + length chunk > MAX_AUDIO_BUFFER_SIZE \<longrightarrow>
      onMessage env s (Binary chunk) = (s, [Sent (ErrorOnly ''audio-buffer-overflow'')]))
   \<and> length (audioBuffer (fst (session env initialState steps))) \<le> MAX_AUDIO_BUFFER_SIZE
   \<and> (\<forall>p \<in> set (sessionPoints env initialState steps).
         length (audioBuffer p)
           \<le> MAX_AUDIO_BUFFER_SIZE
               + (case webmHeader p of None \<Rightarrow> 0 | Some header \<Rightarrow> length header)
       \<and> (case webmHeader p of None \<Rightarrow> True
            | Some header \<Rightarrow> length header \<le> MAX_AUDIO_BUFFER_SIZE))"
proof (intro conjI ballI impI)
  assume "length (audioBuffer s) + length chunk > MAX_AUDIO_BUFFER_SIZE"
  then show "onMessage env s (Binary chunk) = (s, [Sent (ErrorOnly ''audio-buffer-overflow'')])"
    by (simp add: onMessage_def handleBinary_overflow)
next
  show "length (audioBuffer (fst (session env initialState steps))) \<le> MAX_AUDIO_BUFFER_SIZE"
    using session_bounded[OF initialState_bounded, of env steps]
    by (simp add: bufferBounded_def)
next
  fix p assume p: "p \<in> set (sessionPoints env initialState steps)"
  from sessionPoints_bounded[OF initialState_bounded p]
  show "length (audioBuffer p)
           \<le> MAX_AUDIO_BUFFER_SIZE
               + (case webmHeader p of None \<Rightarrow> 0 | Some header \<Rightarrow> length header)"
    and "case webmHeader p of None \<Rightarrow> True
            | Some header \<Rightarrow> length header \<le> MAX_AUDIO_BUFFER_SIZE"
    by simp_all
qed

text \<open>
  One more byte on a full buffer is dropped; the session of \<open>headerLate\<close> ends
  within the limit, and its seventeenth state is within the limit plus the four bytes
  of the header.
\<close>

theorem audioBuffer_overflow_and_bound_witness:
  "fst (session offlineServices initialState [Message (Binary (replicate 5242880 0))]) = fullBuffer
   \<and> length (audioBuffer fullBuffer) + length [7::byte] > MAX_AUDIO_BUFFER_SIZE
   \<and> onMessage offlineServices fullBuffer (Binary [7])
       = (fullBuffer, [Sent (ErrorOnly ''audio-buffer-overflow'')])
   \<and> length (audioBuffer (fst (session offlineServices initialState headerLate)))
       \<le> MAX_AUDIO_BUFFER_SIZE
   \<and> sessionPoints offlineServices initialState headerLate ! 16
       \<in> set (sessionPoints offlineServices initialState headerLate)
   \<and> length (audioBuffer (sessionPoints offlineServices initialState headerLate ! 16))
       \<le> MAX_AUDIO_BUFFER_SIZE + 4"
proof -
  have over: "length (audioBuffer fullBuffer) + length [7::byte] > MAX_AUDIO_BUFFER_SIZE"
    by (simp add: fullBuffer_def capturing_sel MAX_AUDIO_BUFFER_SIZE_def)
  have mem: "sessionPoints offlineServices initialState headerLate ! 16
       \<in> set (sessionPoints offlineServices initialState headerLate)"
    using headerLate_point[of offlineServices] by (simp del: sessionPoints.simps)
  note c = audioBuffer_overflow_and_bound[of fullBuffer "[7]" offlineServices headerLate]
  have a: "onMessage offlineServices fullBuffer (Binary [7])
       = (fullBuffer, [Sent (ErrorOnly ''audio-buffer-overflow'')])"
    using c over by blast
  have b: "length (audioBuffer (fst (session offlineServices initialState headerLate)))
       \<le> MAX_AUDIO_BUFFER_SIZE"
    using c by blast
  have "length (audioBuffer (sessionPoints offlineServices initialState headerLate ! 16))
       \<le> MAX_AUDIO_BUFFER_SIZE
           + (case webmHeader (sessionPoints offlineServices initialState headerLate ! 16) of
                None \<Rightarrow> 0 | Some header \<Rightarrow> length header)"
    using c mem by blast
  then have d: "length (audioBuffer (sessionPoints offlineServices initialState headerLate ! 16))
       \<le> MAX_AUDIO_BUFFER_SIZE + 4"
    by (simp add: headerLate_point length_webmMagic)
  from fullBuffer_reached[of offlineServices] over a b mem d show ?thesis
    by (intro conjI)
qed

section \<open>The final sweep of the stop message\<close>

text \<open>
  The transcription and the correction only issue requests and sleeps.
\<close>

lemma whisperAttempts_calls: "list_all isCall (snd (whisperAttempts api buffer attempt lastError))"
proof (induction api buffer attempt lastError rule: whisperAttempts.induct)
  case (1 api buffer attempt lastError)
  show ?case
  proof (cases "attempt \<le> MAX_RETRIES")
    case False
    then show ?thesis by simp
  next
    case True
    show ?thesis
    proof (cases "attemptFetch (api attempt)")
      case (Inr t)
      with True show ?thesis by simp
    next
      case (Inl msg)
      show ?thesis
      proof (cases "includesStr msg ''400''")
        case True
        with Inl \<open>attempt \<le> MAX_RETRIES\<close> show ?thesis by simp
      next
        case False
        from "1.IH"[OF True Inl False]
        have "list_all isCall (snd (whisperAttempts api buffer (attempt + 1) (Some msg)))" .
        with Inl True False show ?thesis
          by (simp add: case_prod_beta)
      qed
    qed
  qed
qed

lemma runWhisperOnBuffer_calls: "list_all isCall (snd (runWhisperOnBuffer api buffer))"
  by (simp add: runWhisperOnBuffer_def whisperAttempts_calls del: whisperAttempts.simps)

lemma reviseTranscription_calls: "list_all isCall (snd (reviseTranscription api rawText))"
  by (simp add: reviseTranscription_def Let_def split: completion.splits option.splits)

lemma transcribeResidual_calls: "list_all isCall (snd (transcribeResidual env s b))"
proof -
  have w: "list_all isCall ev"
    if "runWhisperOnBuffer (whisperApi env b) b = (r, ev)" for r ev
    using runWhisperOnBuffer_calls[of "whisperApi env b" b] that by simp
  have c: "list_all isCall ev"
    if "reviseTranscription (reviseApi env) t = (r, ev)" for r ev t
    using reviseTranscription_calls[of "reviseApi env" t] that by simp
  show ?thesis
    by (auto simp: transcribeResidual_def split: prod.splits sum.splits dest: w c)
qed

lemma sweepBeforeResponse_calls:
  "list_all isCall ev \<Longrightarrow> sweepBeforeResponse t (ev @ rest) = sweepBeforeResponse t rest"
proof (induction ev)
  case Nil
  then show ?case by simp
next
  case (Cons e ev)
  then show ?case by (cases e) simp_all
qed

lemma no_sweep_in_calls: "list_all isCall ev \<Longrightarrow> \<not> sweepBeforeResponse t (ev @ [Sent r])"
  by (simp add: sweepBeforeResponse_calls)

lemma parseFinalAttributes_events:
  "\<exists>rest. snd (parseFinalAttributes api t tpl cand) = FinalSweep t # rest \<and> list_all isCall rest"
  by (simp add: parseFinalAttributes_def Let_def)

text \<open>
  The three ways a stop message ends.
\<close>

lemma handleStop_empty:
  "audioBuffer s = [] \<Longrightarrow>
   handleStop env s = (s, [QueueIdle, Sent (Update (transcript s) (currAttributes s))])"
  by (simp add: handleStop_def)

lemma handleStop_failed:
  assumes "audioBuffer s \<noteq> []"
    and "transcribeResidual env (s\<lparr> audioBuffer := [], nchunks := 0, webmHeader := None \<rparr>)
           (residualAudio s) = (Inl msg, ev)"
  shows "handleStop env s
           = (s\<lparr> audioBuffer := [], nchunks := 0, webmHeader := None \<rparr>,
              QueueIdle # ev @ [Sent (UpdateWithError (transcript s) (currAttributes s)
                                        ''final-processing-failed'')])"
  using assms by (simp add: handleStop_def Let_def)

lemma handleStop_swept:
  assumes "audioBuffer s \<noteq> []"
    and "transcribeResidual env (s\<lparr> audioBuffer := [], nchunks := 0, webmHeader := None \<rparr>)
           (residualAudio s) = (Inr s2, ev)"
  shows "handleStop env s
           = (s2\<lparr> currAttributes :=
                    fst (parseFinalAttributes (finalApi env) (transcript s2) (template s2)
                           (currAttributes s2)) \<rparr>,
              QueueIdle # ev
                @ snd (parseFinalAttributes (finalApi env) (transcript s2) (template s2)
                         (currAttributes s2))
                @ [Sent (Update (transcript s2)
                     (fst (parseFinalAttributes (finalApi env) (transcript s2) (template s2)
                           (currAttributes s2))))])"
  using assms by (simp add: handleStop_def Let_def case_prod_beta)

lemma oneChunk_reached:
  "fst (session env initialState [Message (Binary [0])]) = capturing 1 [0] None"
  by (simp add: initialState_capturing session_binary capturing_plain
        MAX_AUDIO_BUFFER_SIZE_def MIN_CHUNK_NUM_def checkWebMIntegrity_short
        del: session.simps(2))

text \<open>
  C2, as stated, fails where it names the empty buffer: a stop message on a
  connection that holds no residual audio is answered at once with the current
  transcript and attributes, and \<open>parseFinalAttributes\<close> is not called.
\<close>

theorem stop_on_empty_buffer_skips_sweep:
  "audioBuffer initialState = []
   \<and> handleStop offlineServices initialState
       = (initialState, [QueueIdle, Sent (Update [] Map.empty)])
   \<and> \<not> sweepBeforeResponse (transcript (fst (handleStop offlineServices initialState)))
         (snd (handleStop offlineServices initialState))"
  by (simp add: handleStop_def initialState_def)

text \<open>
  C2, amended. With an empty residual buffer the handler waits for the queue and
  sends the current transcript and attributes, without a sweep. With residual audio it
  waits for the queue first, and then: when the transcription or the correction of
  the residual audio throws, the last event is the response with
  \<open>final-processing-failed\<close> and the transcript and attributes as they were, and no
  sweep was run; otherwise \<open>parseFinalAttributes\<close> is called with the complete
  transcript before anything is sent, and the last event is the response with that
  transcript and the swept attributes. In particular the sweep runs when the residual
  audio has no voice activity, so that nothing new was transcribed.
\<close>

theorem stop_sweeps_residual:
  "(audioBuffer s = [] \<longrightarrow>
      handleStop env s = (s, [QueueIdle, Sent (Update (transcript s) (currAttributes s))]))
   \<and> (audioBuffer s \<noteq> [] \<longrightarrow>
        take 1 (snd (handleStop env s)) = [QueueIdle]
      \<and> (case fst (transcribeResidual env
                     (s\<lparr> audioBuffer := [], nchunks := 0, webmHeader := None \<rparr>)
                     (residualAudio s)) of
           Inl msg \<Rightarrow>
             last (snd (handleStop env s))
               = Sent (UpdateWithError (transcript s) (currAttributes s)
                         ''final-processing-failed'')
             \<and> \<not> sweepBeforeResponse (transcript (fst (handleStop env s)))
                   (snd (handleStop env s))
         | Inr s2 \<Rightarrow>
             transcript (fst (handleStop env s)) = transcript s2
             \<and> sweepBeforeResponse (transcript (fst (handleStop env s)))
                 (snd (handleStop env s))
             \<and> last (snd (handleStop env s))
                 = Sent (Update (transcript (fst (handleStop env s)))
                           (currAttributes (fst (handleStop env s))))))
   \<and> (audioBuffer s \<noteq> [] \<and> \<not> hasVoiceActivity (residualAudio s) \<longrightarrow>
        transcript (fst (handleStop env s)) = transcript s
      \<and> sweepBeforeResponse (transcript s) (snd (handleStop env s)))"
proof (intro conjI impI)
  assume "audioBuffer s = []"
  then show "handleStop env s = (s, [QueueIdle, Sent (Update (transcript s) (currAttributes s))])"
    by (rule handleStop_empty)
next
  define s1 where "s1 = s\<lparr> audioBuffer := [], nchunks := 0, webmHeader := None \<rparr>"
  obtain r ev where tr: "transcribeResidual env s1 (residualAudio s) = (r, ev)"
    by (cases "transcribeResidual env s1 (residualAudio s)")
  have calls: "list_all isCall ev"
    using transcribeResidual_calls[of env s1 "residualAudio s"] tr by simp
  assume ne: "audioBuffer s \<noteq> []"
  show "take 1 (snd (handleStop env s)) = [QueueIdle]"
  proof (cases r)
    case (Inl msg)
    with handleStop_failed[OF ne, of env msg ev] tr show ?thesis by (simp add: s1_def)
  next
    case (Inr s2)
    with handleStop_swept[OF ne, of env s2 ev] tr show ?thesis by (simp add: s1_def)
  qed
  show "case fst (transcribeResidual env
                     (s\<lparr> audioBuffer := [], nchunks := 0, webmHeader := None \<rparr>)
                     (residualAudio s)) of
           Inl msg \<Rightarrow>
             last (snd (handleStop env s))
               = Sent (UpdateWithError (transcript s) (currAttributes s)
                         ''final-processing-failed'')
             \<and> \<not> sweepBeforeResponse (transcript (fst (handleStop env s)))
                   (snd (handleStop env s))
         | Inr s2 \<Rightarrow>
             transcript (fst (handleStop env s)) = transcript s2
             \<and> sweepBeforeResponse (transcript (fst (handleStop env s)))
                 (snd (handleStop env s))
             \<and> last (snd (handleStop env s))
                 = Sent (Update (transcript (fst (handleStop env s)))
                           (currAttributes (fst (handleStop env s))))"
  proof (cases r)
    case (Inl msg)
    with handleStop_failed[OF ne, of env msg ev] tr calls show ?thesis
      by (simp add: s1_def no_sweep_in_calls)
  next
    case (Inr s2)
    obtain rest where rest:
      "snd (parseFinalAttributes (finalApi env) (transcript s2) (template s2) (currAttributes s2))
         = FinalSweep (transcript s2) # rest"
      using parseFinalAttributes_events by blast
    with Inr handleStop_swept[OF ne, of env s2 ev] tr calls show ?thesis
      by (simp add: s1_def sweepBeforeResponse_calls)
  qed
next
  assume a: "audioBuffer s \<noteq> [] \<and> \<not> hasVoiceActivity (residualAudio s)"
  then have tr: "transcribeResidual env (s\<lparr> audioBuffer := [], nchunks := 0, webmHeader := None \<rparr>)
           (residualAudio s) = (Inr (s\<lparr> audioBuffer := [], nchunks := 0, webmHeader := None \<rparr>), [])"
    by (simp add: transcribeResidual_def)
  obtain rest where rest:
    "snd (parseFinalAttributes (finalApi env) (transcript s) (template s) (currAttributes s))
       = FinalSweep (transcript s) # rest"
    using parseFinalAttributes_events by blast
  from a handleStop_swept[OF _ tr] rest
  show "transcript (fst (handleStop env s)) = transcript s"
    and "sweepBeforeResponse (transcript s) (snd (handleStop env s))"
    by simp_all
qed

text \<open>
  One byte of residual audio: no voice activity, no transcription, and the sweep is
  run before the response.
\<close>

theorem stop_sweeps_residual_witness:
  "fst (session offlineServices initialState [Message (Binary [0])]) = capturing 1 [0] None
   \<and> audioBuffer (capturing 1 [0] None) \<noteq> []
   \<and> \<not> hasVoiceActivity (residualAudio (capturing 1 [0] None))
   \<and> sweepBeforeResponse (transcript (capturing 1 [0] None))
        (snd (handleStop offlineServices (capturing 1 [0] None)))
   \<and> snd (handleStop offlineServices (capturing 1 [0] None))
       = [QueueIdle, FinalSweep [], Sent (Update [] Map.empty)]"
proof -
  have h1: "audioBuffer (capturing 1 [0] None) \<noteq> []"
    by (simp add: capturing_def)
  have h2: "\<not> hasVoiceActivity (residualAudio (capturing 1 [0] None))"
    by (simp add: capturing_def residualAudio_def hasVoiceActivity_def MIN_AUDIO_SIZE_BYTES_def)
  have sw: "sweepBeforeResponse (transcript (capturing 1 [0] None))
        (snd (handleStop offlineServices (capturing 1 [0] None)))"
    using stop_sweeps_residual[of "capturing 1 [0] None" offlineServices] h1 h2 by blast
  have ev: "snd (handleStop offlineServices (capturing 1 [0] None))
       = [QueueIdle, FinalSweep [], Sent (Update [] Map.empty)]"
    using h2
    by (simp add: handleStop_def Let_def transcribeResidual_def parseFinalAttributes_def
          capturing_def trim_def)
  from oneChunk_reached[of offlineServices] h1 h2 sw ev show ?thesis
    by (intro conjI)
qed

section \<open>The threshold of the transcription job\<close>

lemma extractAttributesFromText_calls:
  "list_all isCall (snd (extractAttributesFromText api text tpl attributes))"
  by (simp add: extractAttributesFromText_def Let_def split: completion.splits option.splits)

lemma calls_not_sent: "list_all isCall ev \<Longrightarrow> Sent r \<notin> set ev"
  by (induction ev) auto

lemma greeting_whisper:
  "runWhisperOnBuffer (whisperApi greetingServices voicedAudio) voicedAudio
     = (Inr ''um, good morning everyone'', [WhisperRequest voicedAudio])"
proof -
  have v: "hasVoiceActivity voicedAudio"
    using hasVoiceActivity_voicedAudio[of "[]"] by simp
  show ?thesis
    by (simp add: runWhisperOnBuffer_def v MAX_RETRIES_def attemptFetch_def greetingServices_def)
qed

lemma greeting_revise:
  "reviseTranscription (reviseApi greetingServices) ''um, good morning everyone''
     = (Inr ''Good morning to everyone here'', [CorrectionRequest ''um, good morning everyone''])"
  by (simp add: reviseTranscription_def greetingServices_def trim_def isSpace_def Let_def)

lemma greeting_counts:
  "wordCount ''um, good morning everyone'' = 4" "wordCount ''Good morning to everyone here'' = 5"
  by (simp_all add: wordCount_def trim_def isSpace_def)

lemma curt_whisper:
  "runWhisperOnBuffer (whisperApi curtServices voicedAudio) voicedAudio
     = (Inr ''good morning'', [WhisperRequest voicedAudio])"
proof -
  have v: "hasVoiceActivity voicedAudio"
    using hasVoiceActivity_voicedAudio[of "[]"] by simp
  show ?thesis
    by (simp add: runWhisperOnBuffer_def v MAX_RETRIES_def attemptFetch_def curtServices_def)
qed

lemma curt_revise:
  "reviseTranscription (reviseApi curtServices) ''good morning'' = (Inr ''good morning'', [])"
  by (simp add: reviseTranscription_def trim_def isSpace_def)

lemma curt_count: "wordCount ''good morning'' = 2"
  by (simp add: wordCount_def trim_def isSpace_def)

text \<open>
  C8, as stated, fails: the job runs the correction before it counts words, and it
  counts the words of the corrected text. A raw transcription of four words, below
  the threshold of five, is sent to the correction; the corrected text has five
  words, so the job stitches it into the transcript and sends an update.
\<close>

theorem transcriptionJob_runs_on_short_raw_text:
  "wordCount ''um, good morning everyone'' < MIN_WORD_COUNT
   \<and> transcriptionJob greetingServices initialState voicedAudio
       = (initialState\<lparr> transcript := ''Good morning to everyone here'',
                        currTranscriptSize := 29 \<rparr>,
          [WhisperRequest voicedAudio, CorrectionRequest ''um, good morning everyone'',
           Sent (Update ''Good morning to everyone here'' Map.empty)])"
  by (simp add: greeting_counts MIN_WORD_COUNT_def transcriptionJob_def greeting_whisper
        greeting_revise Let_def appendWithOverlap_def initialState_def sliceLast_def
        extractAttributesFromText_def)

text \<open>
  C8, amended. In every transcription job the correction is run on the raw
  transcription first. When the corrected text has fewer words than the threshold
  the job ends silently: the state is unchanged (no transcript growth, no attribute
  update) and nothing is sent. Otherwise the corrected text is stitched into the
  transcript. When this stitch or the one before it grew the transcript, the
  incremental extraction runs over the sliding window, the last
  \<open>previous growth + new growth\<close> characters of the transcript; its result is merged
  into the attributes and an update with the window is sent; when the extraction
  throws, the attributes stay and \<open>transcription-failed\<close> is sent.
\<close>

theorem transcriptionJob_gate_on_corrected_text:
  assumes "runWhisperOnBuffer (whisperApi env captureBuffer) captureBuffer = (Inr raw, ev1)"
    and "reviseTranscription (reviseApi env) raw = (Inr revised, ev2)"
  shows "(wordCount revised < MIN_WORD_COUNT \<longrightarrow>
            transcriptionJob env s captureBuffer = (s, ev1 @ ev2)
          \<and> (\<forall>r. Sent r \<notin> set (snd (transcriptionJob env s captureBuffer))))
       \<and> (MIN_WORD_COUNT \<le> wordCount revised \<longrightarrow>
            (transcript (fst (transcriptionJob env s captureBuffer)),
             currTranscriptSize (fst (transcriptionJob env s captureBuffer)))
              = appendWithOverlap (transcript s) revised
          \<and> (0 < currTranscriptSize s
                    + currTranscriptSize (fst (transcriptionJob env s captureBuffer)) \<longrightarrow>
              (case extractAttributesFromText (extractApi env)
                     (drop (length (transcript (fst (transcriptionJob env s captureBuffer)))
                              - (currTranscriptSize s
                                 + currTranscriptSize
                                     (fst (transcriptionJob env s captureBuffer))))
                        (transcript (fst (transcriptionJob env s captureBuffer))))
                     (template s) (currAttributes s) of
                (Inl msg, ev3) \<Rightarrow>
                  (currAttributes (fst (transcriptionJob env s captureBuffer)) = currAttributes s
                   \<and> snd (transcriptionJob env s captureBuffer)
                       = ev1 @ ev2 @ ev3 @ [Sent (ErrorOnly ''transcription-failed'')])
              | (Inr extracted, ev3) \<Rightarrow>
                  (currAttributes (fst (transcriptionJob env s captureBuffer))
                     = currAttributes s ++ extracted
                   \<and> snd (transcriptionJob env s captureBuffer)
                       = ev1 @ ev2 @ ev3
                         @ [Sent (Update
                              (drop (length (transcript
                                               (fst (transcriptionJob env s captureBuffer)))
                                       - (currTranscriptSize s
                                          + currTranscriptSize
                                              (fst (transcriptionJob env s captureBuffer))))
                                 (transcript (fst (transcriptionJob env s captureBuffer))))
                              (currAttributes
                                 (fst (transcriptionJob env s captureBuffer))))]))))"
proof (intro conjI impI allI)
  assume short: "wordCount revised < MIN_WORD_COUNT"
  with assms show job: "transcriptionJob env s captureBuffer = (s, ev1 @ ev2)"
    by (simp add: transcriptionJob_def)
  have "list_all isCall ev1"
    using runWhisperOnBuffer_calls[of "whisperApi env captureBuffer" captureBuffer] assms(1)
    by simp
  moreover have "list_all isCall ev2"
    using reviseTranscription_calls[of "reviseApi env" raw] assms(2) by simp
  ultimately have "list_all isCall (ev1 @ ev2)" by simp
  then show "Sent r \<notin> set (snd (transcriptionJob env s captureBuffer))" for r
    unfolding job snd_conv by (rule calls_not_sent)
next
  assume long: "MIN_WORD_COUNT \<le> wordCount revised"
  obtain t g where ag: "appendWithOverlap (transcript s) revised = (t, g)"
    by (cases "appendWithOverlap (transcript s) revised")
  obtain r3 ev3 where ex:
    "extractAttributesFromText (extractApi env) (sliceLast t (currTranscriptSize s + g))
       (template s) (currAttributes s) = (r3, ev3)"
    by (cases "extractAttributesFromText (extractApi env)
                (sliceLast t (currTranscriptSize s + g)) (template s) (currAttributes s)")
  have tg: "transcript (fst (transcriptionJob env s captureBuffer)) = t
          \<and> currTranscriptSize (fst (transcriptionJob env s captureBuffer)) = g"
    using assms long ag ex by (cases r3) (simp_all add: transcriptionJob_def Let_def)
  then show "(transcript (fst (transcriptionJob env s captureBuffer)),
             currTranscriptSize (fst (transcriptionJob env s captureBuffer)))
              = appendWithOverlap (transcript s) revised"
    by (simp add: ag)
  assume "0 < currTranscriptSize s
                + currTranscriptSize (fst (transcriptionJob env s captureBuffer))"
  then have pos: "0 < currTranscriptSize s + g"
    by (simp add: tg)
  then have w: "sliceLast t (currTranscriptSize s + g)
       = drop (length t - (currTranscriptSize s + g)) t"
    by (auto simp: sliceLast_def)
  show "case extractAttributesFromText (extractApi env)
                     (drop (length (transcript (fst (transcriptionJob env s captureBuffer)))
                              - (currTranscriptSize s
                                 + currTranscriptSize
                                     (fst (transcriptionJob env s captureBuffer))))
                        (transcript (fst (transcriptionJob env s captureBuffer))))
                     (template s) (currAttributes s) of
                (Inl msg, ev3) \<Rightarrow>
                  (currAttributes (fst (transcriptionJob env s captureBuffer)) = currAttributes s
                   \<and> snd (transcriptionJob env s captureBuffer)
                       = ev1 @ ev2 @ ev3 @ [Sent (ErrorOnly ''transcription-failed'')])
              | (Inr extracted, ev3) \<Rightarrow>
                  (currAttributes (fst (transcriptionJob env s captureBuffer))
                     = currAttributes s ++ extracted
                   \<and> snd (transcriptionJob env s captureBuffer)
                       = ev1 @ ev2 @ ev3
                         @ [Sent (Update
                              (drop (length (transcript
                                               (fst (transcriptionJob env s captureBuffer)))
                                       - (currTranscriptSize s
                                          + currTranscriptSize
                                              (fst (transcriptionJob env s captureBuffer))))
                                 (transcript (fst (transcriptionJob env s captureBuffer))))
                              (currAttributes
                                 (fst (transcriptionJob env s captureBuffer))))])"
    unfolding tg[THEN conjunct1] tg[THEN conjunct2] w[symmetric] ex
    using assms long ag ex by (cases r3) (simp_all add: transcriptionJob_def Let_def)
qed

text \<open>
  Two words from the transcription service: the job ends silently. Four words that
  the correction turns into five: the job stitches the corrected text, which grows
  the transcript by 29 characters, and sends them as the window.
\<close>

theorem transcriptionJob_gate_on_corrected_text_witness:
  "runWhisperOnBuffer (whisperApi curtServices voicedAudio) voicedAudio
     = (Inr ''good morning'', [WhisperRequest voicedAudio])
   \<and> reviseTranscription (reviseApi curtServices) ''good morning'' = (Inr ''good morning'', [])
   \<and> wordCount ''good morning'' < MIN_WORD_COUNT
   \<and> transcriptionJob curtServices initialState voicedAudio
       = (initialState, [WhisperRequest voicedAudio] @ [])
   \<and> runWhisperOnBuffer (whisperApi greetingServices voicedAudio) voicedAudio
       = (Inr ''um, good morning everyone'', [WhisperRequest voicedAudio])
   \<and> reviseTranscription (reviseApi greetingServices) ''um, good morning everyone''
       = (Inr ''Good morning to everyone here'', [CorrectionRequest ''um, good morning everyone''])
   \<and> MIN_WORD_COUNT \<le> wordCount ''Good morning to everyone here''
   \<and> (transcript (fst (transcriptionJob greetingServices initialState voicedAudio)),
        currTranscriptSize (fst (transcriptionJob greetingServices initialState voicedAudio)))
       = appendWithOverlap (transcript initialState) ''Good morning to everyone here''
   \<and> 0 < currTranscriptSize initialState
           + currTranscriptSize (fst (transcriptionJob greetingServices initialState voicedAudio))
   \<and> snd (transcriptionJob greetingServices initialState voicedAudio)
       = [WhisperRequest voicedAudio, CorrectionRequest ''um, good morning everyone'',
          Sent (Update ''Good morning to everyone here'' Map.empty)]"
proof -
  have short: "wordCount ''good morning'' < MIN_WORD_COUNT"
    by (simp add: curt_count MIN_WORD_COUNT_def)
  have long: "MIN_WORD_COUNT \<le> wordCount ''Good morning to everyone here''"
    by (simp add: greeting_counts MIN_WORD_COUNT_def)
  note c1 = transcriptionJob_gate_on_corrected_text[OF curt_whisper curt_revise, of initialState]
  note c2 = transcriptionJob_gate_on_corrected_text[OF greeting_whisper greeting_revise,
      of initialState]
  have a: "transcriptionJob curtServices initialState voicedAudio
       = (initialState, [WhisperRequest voicedAudio] @ [])"
    by (rule conjunct1[OF mp[OF conjunct1[OF c1] short]])
  note l = mp[OF conjunct2[OF c2] long]
  have b: "(transcript (fst (transcriptionJob greetingServices initialState voicedAudio)),
        currTranscriptSize (fst (transcriptionJob greetingServices initialState voicedAudio)))
       = appendWithOverlap (transcript initialState) ''Good morning to everyone here''"
    by (rule conjunct1[OF l])
  have st: "appendWithOverlap (transcript initialState) ''Good morning to everyone here''
       = (''Good morning to everyone here'', 29)"
    by (simp add: appendWithOverlap_def initialState_def)
  have t: "transcript (fst (transcriptionJob greetingServices initialState voicedAudio))
       = ''Good morning to everyone here''"
    and g: "currTranscriptSize (fst (transcriptionJob greetingServices initialState voicedAudio))
       = 29"
    using b unfolding st by simp_all
  have pos: "0 < currTranscriptSize initialState
           + currTranscriptSize (fst (transcriptionJob greetingServices initialState voicedAudio))"
    by (simp add: g)
  have e: "snd (transcriptionJob greetingServices initialState voicedAudio)
       = [WhisperRequest voicedAudio, CorrectionRequest ''um, good morning everyone'',
          Sent (Update ''Good morning to everyone here'' Map.empty)]"
    using mp[OF conjunct2[OF l] pos] unfolding t g
    by (simp add: extractAttributesFromText_def initialState_def)
  from curt_whisper curt_revise short a greeting_whisper greeting_revise long b pos e
  show ?thesis by (intro conjI)
qed

text \<open>
  When neither this stitch nor the one before it grew the transcript, the job takes
  \<open>slice(-0)\<close>, which is the whole transcript: here the corrected text is already
  the end of the transcript, and the update carries the transcript from its first
  word.
\<close>

lemma transcriptionJob_without_growth:
  "transcriptionJob greetingServices repeated voicedAudio
     = (repeated,
        [WhisperRequest voicedAudio, CorrectionRequest ''um, good morning everyone'',
         Sent (Update ''Hello all. Good morning to everyone here'' Map.empty)])"
proof -
  have st: "appendWithOverlap ''Hello all. Good morning to everyone here''
              ''Good morning to everyone here''
       = (''Hello all. Good morning to everyone here'', 0)"
    by (simp add: appendWithOverlap_def endsWith_def)
  show ?thesis
    by (simp add: greeting_counts MIN_WORD_COUNT_def transcriptionJob_def greeting_whisper
          greeting_revise Let_def st repeated_def initialState_def sliceLast_def
          extractAttributesFromText_def)
qed

section \<open>The transcript only grows\<close>

text \<open>
  Stitching is the only way the transcript changes, so at the end of every message
  and job of a session the transcript extends what it was before.
\<close>

lemma appendWithOverlap_extends: "prefix base (fst (appendWithOverlap base addition))"
  using appendWithOverlap_shape[of base addition] by auto

lemma binaryFrame_transcript:
  "p \<in> set (fst (binaryFrame s chunk)) \<Longrightarrow> transcript p = transcript s"
  by (auto simp: binaryFrame_def Let_def captureHeader_def appendChunk_def prependHeader_def
        resetCapture_def split: if_splits option.splits)

lemma handleBinary_transcript: "transcript (fst (handleBinary s chunk)) = transcript s"
proof (cases "fst (binaryFrame s chunk) = []")
  case True
  then show ?thesis by (simp add: handleBinary_def)
next
  case False
  then have "last (s # fst (binaryFrame s chunk)) \<in> set (fst (binaryFrame s chunk))"
    by simp
  then show ?thesis by (simp add: handleBinary_def binaryFrame_transcript del: last.simps)
qed

lemma appendWithOverlap_extends_pair:
  "appendWithOverlap base addition = (t, g) \<Longrightarrow> prefix base t"
  using appendWithOverlap_extends[of base addition] by simp

lemma transcribeResidual_transcript:
  "transcribeResidual env s b = (Inr s', ev) \<Longrightarrow> prefix (transcript s) (transcript s')"
  by (auto simp: transcribeResidual_def split: if_splits prod.splits sum.splits
        dest: appendWithOverlap_extends_pair)

lemma handleStop_transcript: "prefix (transcript s) (transcript (fst (handleStop env s)))"
  by (auto simp: handleStop_def Let_def split: prod.splits sum.splits
        dest: transcribeResidual_transcript)

lemma transcriptionJob_transcript:
  "prefix (transcript s) (transcript (fst (transcriptionJob env s b)))"
  by (auto simp: transcriptionJob_def Let_def split: prod.splits sum.splits
        dest: appendWithOverlap_extends_pair)

lemma sessionStep_transcript:
  "prefix (transcript s) (transcript (fst (sessionStep env s st)))"
  by (auto simp: sessionStep_def onMessage_def handleStart_fst pushBlocks_other
        handleBinary_transcript handleStop_transcript transcriptionJob_transcript
        split: step.splits message.splits)

lemma session_transcript_grows:
  "prefix (transcript s) (transcript (fst (session env s steps)))"
proof (induction steps arbitrary: s)
  case Nil
  then show ?case by simp
next
  case (Cons st steps)
  from sessionStep_transcript[of s env st] Cons.IH[of "fst (sessionStep env s st)"]
  show ?case by (simp only: session_fst_Cons)
qed


end
